theory Spec2Isabelle
  imports Complex_Main "HOL-Library.AList" "HOL-Library.Log_Nat"
begin

section \<open>LearnNest server: data model\<close>

text \<open>
  The server is an Express application over a MongoDB database, a Firebase token verifier
  and the Stripe payment API. The repository holds six snapshots of the same
  \<^verbatim>\<open>index.js\<close>: \<^verbatim>\<open>src/index.js\<close> (lines 1-730, the latest, and lines 731-1121),
  \<^verbatim>\<open>src/unnamed/part_000\<close>, \<^verbatim>\<open>src/unnamed/part_001\<close> (two snapshots) and
  \<^verbatim>\<open>src/unnamed/part_002\<close>.

  A stored document, a request body and a decoded token are JSON objects: association
  lists from field names to values. A field that is absent reads as JavaScript's
  \<^verbatim>\<open>undefined\<close>, the value \<open>None\<close> of \<open>jval option\<close>. Field values are
  scalars. A string is the list of the bytes of its UTF-8 encoding, so a character
  beyond ASCII is two bytes or more (U+00A0 is \<open>0xC2\<close>, \<open>0xA0\<close>).
\<close>

datatype jval = JNull | JBool bool | JNum rat | JStr string | JOid string

type_synonym doc = "(string \<times> jval) list"

text \<open>
  A JavaScript number is a double: \<^verbatim>\<open>NaN\<close>, an infinity (\<open>Infinity True\<close> the
  positive one) or a finite value, carried as the rational it is. The two zeros are one
  value here: the handlers never divide by zero, and a negative zero is falsy, is written
  as \<^verbatim>\<open>0\<close> in JSON and skips nothing, as the positive one.
\<close>

datatype jsnum = NaN | Infinity bool | Num rat

datatype coll = Users | TeachOn | Classes

text \<open>
  The calls that leave the process, in the order they are made: the identity oracle
  (with the token), the document store (collection and operation) and the payment
  provider (with the amount).
\<close>

datatype event =
    EvVerifyIdToken string
  | EvStore coll string
  | EvPaymentIntent jsnum

record world =
  users :: "doc list"
  teachOn :: "doc list"
  classes :: "doc list"
  trace :: "event list"
  ticks :: nat

text \<open>
  What the code does not decide is a parameter: which tokens the identity oracle
  accepts, which store call fails (by its position in the trace, with the error's
  message), what the clock shows at each reading, what the payment provider answers,
  which values \<^verbatim>\<open>new ObjectId\<close> accepts, which patterns \<^verbatim>\<open>new RegExp\<close> accepts with
  which flags and what they match (\<open>caseless_outside\<close>: whether a plain pattern matches,
  case ignored, a string with characters outside ASCII), JavaScript's conversion of a
  string to a number, the
  message with which the store refuses a negative skip, and what the store does with a
  skip that is not an integer of magnitude up to \<open>2^53\<close> or a limit that is not an
  integer from 0 to \<open>2^53\<close> (the command is refused with a message, or so many
  documents are skipped and at most so many returned).
\<close>

record env =
  verifyIdToken :: "string \<Rightarrow> doc option"
  store_error :: "nat \<Rightarrow> string option"
  now :: "nat \<Rightarrow> string"
  createPaymentIntent :: "jsnum \<Rightarrow> string + doc"
  mkObjectId :: "jval option \<Rightarrow> jval option"
  mkRegExp :: "string \<Rightarrow> string \<Rightarrow> (string \<Rightarrow> bool) option"
  caseless_outside :: "string \<Rightarrow> string \<Rightarrow> bool"
  strToNumber :: "string \<Rightarrow> jsnum"
  negative_skip :: string
  cursor_outside :: "jsnum \<Rightarrow> jsnum \<Rightarrow> string + nat \<times> nat option"

record request =
  authorization :: "string option"
  body :: doc
  param_id :: string
  query_email :: "string option"
  query_page :: "string option"
  query_limit :: "string option"
  decoded :: "doc option"

text \<open>
  What a handler leaves behind: a response with its status and body, or an exception
  that escaped the \<^verbatim>\<open>async\<close> function, in which case the code has written no response.
  A body is an object of scalar fields, a list of documents, the page object
  \<^verbatim>\<open>{total, pageNo, totalPages, data}\<close>, or the object \<^verbatim>\<open>{message, error}\<close> that
  carries the caught error itself.
\<close>

datatype exn = TypeError | SyntaxError | BSONError | StoreError string

datatype rbody =
    BDoc doc
  | BDocs "doc list"
  | BPage jsnum jsnum jsnum "doc list"
  | BError string exn

datatype outcome = Response nat rbody | Unhandled exn

section \<open>Numbers\<close>

text \<open>
  The double nearest to a rational, ties to the even significand: 53 bits of
  significand, exponents down to the subnormals, and an infinity from \<open>2^1024\<close> on.
  Every arithmetic result of the code is rounded so.
\<close>

definition pow2 :: "int \<Rightarrow> rat" where
  "pow2 k = (if 0 \<le> k then 2 ^ nat k else 1 / 2 ^ nat (- k))"

text \<open>The exponent of the power of two at or below a positive rational.\<close>

definition ilog2 :: "rat \<Rightarrow> int" where
  "ilog2 a = (if 1 \<le> a then bitlen \<lfloor>a\<rfloor> - 1 else - bitlen (\<lceil>1 / a\<rceil> - 1))"

definition round_half_even :: "rat \<Rightarrow> int" where
  "round_half_even m =
     (let f = \<lfloor>m\<rfloor>; r = m - of_int f
      in if r < 1 / 2 then f else if 1 / 2 < r then f + 1 else if even f then f else f + 1)"

definition fl :: "rat \<Rightarrow> jsnum" where
  "fl x =
     (if x = 0 then Num 0
      else (let a = \<bar>x\<bar>;
                e = max (ilog2 a - 52) (- 1074);
                v = of_int (round_half_even (a / pow2 e)) * pow2 e
            in if 1024 \<le> ilog2 v then Infinity (0 < x) else Num (if 0 < x then v else - v)))"

text \<open>\<^verbatim>\<open>x * y\<close>, \<^verbatim>\<open>x / y\<close> and \<^verbatim>\<open>Math.ceil(x)\<close> on numbers.\<close>

definition js_mul :: "jsnum \<Rightarrow> jsnum \<Rightarrow> jsnum" where
  "js_mul x y =
     (case (x, y) of
        (NaN, _) \<Rightarrow> NaN
      | (_, NaN) \<Rightarrow> NaN
      | (Infinity s, Infinity t) \<Rightarrow> Infinity (s = t)
      | (Infinity s, Num b) \<Rightarrow> if b = 0 then NaN else Infinity (s = (0 < b))
      | (Num a, Infinity t) \<Rightarrow> if a = 0 then NaN else Infinity (t = (0 < a))
      | (Num a, Num b) \<Rightarrow> fl (a * b))"

definition js_div :: "jsnum \<Rightarrow> jsnum \<Rightarrow> jsnum" where
  "js_div x y =
     (case (x, y) of
        (NaN, _) \<Rightarrow> NaN
      | (_, NaN) \<Rightarrow> NaN
      | (Infinity s, Infinity t) \<Rightarrow> NaN
      | (Infinity s, Num b) \<Rightarrow> Infinity (s = (0 \<le> b))
      | (Num a, Infinity t) \<Rightarrow> Num 0
      | (Num a, Num b) \<Rightarrow>
          if b = 0 then (if a = 0 then NaN else Infinity (0 < a)) else fl (a / b))"

definition js_ceil :: "jsnum \<Rightarrow> jsnum" where
  "js_ceil x = (case x of Num r \<Rightarrow> Num (of_int \<lceil>r\<rceil>) | _ \<Rightarrow> x)"

section \<open>The document store\<close>

definition get_coll :: "coll \<Rightarrow> world \<Rightarrow> doc list" where
  "get_coll c w = (case c of Users \<Rightarrow> users w | TeachOn \<Rightarrow> teachOn w | Classes \<Rightarrow> classes w)"

definition set_coll :: "coll \<Rightarrow> doc list \<Rightarrow> world \<Rightarrow> world" where
  "set_coll c ds w =
     (case c of Users \<Rightarrow> w\<lparr>users := ds\<rparr> | TeachOn \<Rightarrow> w\<lparr>teachOn := ds\<rparr>
      | Classes \<Rightarrow> w\<lparr>classes := ds\<rparr>)"

text \<open>
  The driver writes \<^verbatim>\<open>undefined\<close> as \<^verbatim>\<open>null\<close>, in a filter and in an update alike.
\<close>

definition bson :: "jval option \<Rightarrow> jval" where
  "bson v = (case v of None \<Rightarrow> JNull | Some x \<Rightarrow> x)"

text \<open>
  The filter \<^verbatim>\<open>{k: v}\<close>: a \<^verbatim>\<open>null\<close> matches a document whose field is \<^verbatim>\<open>null\<close> or
  absent; any other value matches the field equal to it.
\<close>

definition field_eq :: "string \<Rightarrow> jval option \<Rightarrow> doc \<Rightarrow> bool" where
  "field_eq k v d =
     (if bson v = JNull then map_of d k = None \<or> map_of d k = Some JNull
      else map_of d k = Some (bson v))"

text \<open>\<^verbatim>\<open>{k: {$ne: v}}\<close> is the complement of \<^verbatim>\<open>{k: v}\<close>.\<close>

definition field_ne :: "string \<Rightarrow> jval option \<Rightarrow> doc \<Rightarrow> bool" where
  "field_ne k v d = (\<not> field_eq k v d)"

text \<open>\<^verbatim>\<open>{k: {$regex: r}}\<close> matches a string field that \<open>r\<close> matches.\<close>

definition field_regex :: "string \<Rightarrow> (string \<Rightarrow> bool) \<Rightarrow> doc \<Rightarrow> bool" where
  "field_regex k r d = (case map_of d k of Some (JStr s) \<Rightarrow> r s | _ \<Rightarrow> False)"

text \<open>\<^verbatim>\<open>{k: {$gt: n}}\<close> with a number matches a numeric field above it.\<close>

definition field_gt :: "string \<Rightarrow> rat \<Rightarrow> doc \<Rightarrow> bool" where
  "field_gt k n d = (case map_of d k of Some (JNum x) \<Rightarrow> n < x | _ \<Rightarrow> False)"

text \<open>\<^verbatim>\<open>$set\<close>: each field is overwritten where it stands, or added at the end.\<close>

fun set_fields :: "(string \<times> jval) list \<Rightarrow> doc \<Rightarrow> doc" where
  "set_fields [] d = d"
| "set_fields ((k, v) # kvs) d = set_fields kvs (AList.update k v d)"

text \<open>\<^verbatim>\<open>updateOne\<close> changes the first document the filter matches, and no other.\<close>

fun update_first :: "(doc \<Rightarrow> bool) \<Rightarrow> (doc \<Rightarrow> doc) \<Rightarrow> doc list \<Rightarrow> doc list" where
  "update_first p f [] = []"
| "update_first p f (d # ds) = (if p d then f d # ds else d # update_first p f ds)"

text \<open>
  Every store call is logged, and fails when the environment says that the call at this
  position of the trace fails: the promise is rejected with the store's error.
\<close>

datatype 'a res = Ok 'a world | Throw exn world

definition store_call :: "env \<Rightarrow> coll \<Rightarrow> string \<Rightarrow> world \<Rightarrow> unit res" where
  "store_call e c opn w =
     (let w1 = w\<lparr>trace := trace w @ [EvStore c opn]\<rparr>
      in case store_error e (length (trace w)) of
           Some m \<Rightarrow> Throw (StoreError m) w1
         | None \<Rightarrow> Ok () w1)"

definition findOne :: "env \<Rightarrow> coll \<Rightarrow> (doc \<Rightarrow> bool) \<Rightarrow> world \<Rightarrow> doc option res" where
  "findOne e c p w =
     (case store_call e c ''findOne'' w of
        Throw x w1 \<Rightarrow> Throw x w1
      | Ok _ w1 \<Rightarrow> Ok (List.find p (get_coll c w1)) w1)"

definition find_toArray :: "env \<Rightarrow> coll \<Rightarrow> (doc \<Rightarrow> bool) \<Rightarrow> world \<Rightarrow> doc list res" where
  "find_toArray e c p w =
     (case store_call e c ''find'' w of
        Throw x w1 \<Rightarrow> Throw x w1
      | Ok _ w1 \<Rightarrow> Ok (filter p (get_coll c w1)) w1)"

definition countDocuments :: "env \<Rightarrow> coll \<Rightarrow> (doc \<Rightarrow> bool) \<Rightarrow> world \<Rightarrow> nat res" where
  "countDocuments e c p w =
     (case store_call e c ''countDocuments'' w of
        Throw x w1 \<Rightarrow> Throw x w1
      | Ok _ w1 \<Rightarrow> Ok (length (filter p (get_coll c w1))) w1)"

definition updateOne ::
  "env \<Rightarrow> coll \<Rightarrow> (doc \<Rightarrow> bool) \<Rightarrow> (string \<times> jval) list \<Rightarrow> world \<Rightarrow> unit res" where
  "updateOne e c p kvs w =
     (case store_call e c ''updateOne'' w of
        Throw x w1 \<Rightarrow> Throw x w1
      | Ok _ w1 \<Rightarrow> Ok () (set_coll c (update_first p (set_fields kvs) (get_coll c w1)) w1))"

text \<open>
  \<^verbatim>\<open>insertOne\<close>: a document whose \<^verbatim>\<open>_id\<close> is missing or \<^verbatim>\<open>null\<close> gets a
  generated one, which no stored document has (here: longer than every stored id); a
  document that brings an \<^verbatim>\<open>_id\<close> the collection already holds is a duplicate-key
  error. The answer is the acknowledgement with the inserted id.
\<close>

definition id_len :: "doc \<Rightarrow> nat" where
  "id_len d = (case map_of d ''_id'' of Some (JOid h) \<Rightarrow> length h | _ \<Rightarrow> 0)"

definition fresh_id :: "doc list \<Rightarrow> jval" where
  "fresh_id ds = JOid (replicate (Suc (foldr max (map id_len ds) 0)) CHR ''0'')"

definition insertOne :: "env \<Rightarrow> coll \<Rightarrow> doc \<Rightarrow> world \<Rightarrow> doc res" where
  "insertOne e c d w =
     (case store_call e c ''insertOne'' w of
        Throw x w1 \<Rightarrow> Throw x w1
      | Ok _ w1 \<Rightarrow>
          (case map_of d ''_id'' of
             None \<Rightarrow>
               (let oid = fresh_id (get_coll c w1)
                in Ok [(''acknowledged'', JBool True), (''insertedId'', oid)]
                      (set_coll c (get_coll c w1 @ [(''_id'', oid) # d]) w1))
           | Some JNull \<Rightarrow>
               (let oid = fresh_id (get_coll c w1)
                in Ok [(''acknowledged'', JBool True), (''insertedId'', oid)]
                      (set_coll c (get_coll c w1 @ [AList.update ''_id'' oid d]) w1))
           | Some oid \<Rightarrow>
               if Some oid \<in> set (map (\<lambda>x. map_of x ''_id'') (get_coll c w1))
               then Throw (StoreError ''E11000 duplicate key error'') w1
               else Ok [(''acknowledged'', JBool True), (''insertedId'', oid)]
                       (set_coll c (get_coll c w1 @ [d]) w1)))"

text \<open>
  \<^verbatim>\<open>new ObjectId(v)\<close> for a filter on the collection \<open>ds\<close>: without a value, with
  \<^verbatim>\<open>null\<close> or with a number it generates an id, which no stored document has; what
  it makes of any other value is the environment's (\<open>None\<close>: it throws).
\<close>

definition newObjectId :: "env \<Rightarrow> doc list \<Rightarrow> jval option \<Rightarrow> jval option" where
  "newObjectId e ds v =
     (case v of
        None \<Rightarrow> Some (fresh_id ds)
      | Some JNull \<Rightarrow> Some (fresh_id ds)
      | Some (JNum _) \<Rightarrow> Some (fresh_id ds)
      | Some x \<Rightarrow> mkObjectId e (Some x))"

text \<open>\<^verbatim>\<open>new Date().toISOString()\<close>: the clock is read, and the next reading is another one.\<close>

definition isoNow :: "env \<Rightarrow> world \<Rightarrow> jval \<times> world" where
  "isoNow e w = (JStr (now e (ticks w)), w\<lparr>ticks := Suc (ticks w)\<rparr>)"

section \<open>The gates\<close>

text \<open>
  \<^verbatim>\<open>s.split(' ')\<close> cuts at every single space and keeps the empty pieces;
  \<^verbatim>\<open>[1]\<close> is the second piece, \<^verbatim>\<open>undefined\<close> when there is none.
\<close>

fun split_sp :: "string \<Rightarrow> string list" where
  "split_sp [] = [[]]"
| "split_sp (c # cs) =
     (if c = CHR '' '' then [] # split_sp cs
      else (case split_sp cs of [] \<Rightarrow> [[c]] | p # ps \<Rightarrow> (c # p) # ps))"

definition at1 :: "'a list \<Rightarrow> 'a option" where
  "at1 xs = (case xs of _ # y # _ \<Rightarrow> Some y | _ \<Rightarrow> None)"

definition startsWith :: "string \<Rightarrow> string \<Rightarrow> bool" where
  "startsWith s p = (take (length p) s = p)"

datatype step = Next request world | Done outcome world

definition unauthorized :: outcome where
  "unauthorized = Response 401 (BDoc [(''message'', JStr ''Unauthorized access'')])"

definition forbidden :: outcome where
  "forbidden = Response 403 (BDoc [(''message'', JStr ''Forbidden Access'')])"

text \<open>\<^verbatim>\<open>verifyFirebaseToken\<close> (src/index.js, lines 54-76).\<close>

definition verifyFirebaseToken :: "env \<Rightarrow> request \<Rightarrow> world \<Rightarrow> step" where
  "verifyFirebaseToken e req w =
     (case authorization req of
        None \<Rightarrow> Done unauthorized w
      | Some authHeader \<Rightarrow>
          if authHeader = [] \<or> \<not> startsWith authHeader ''Bearer '' then Done unauthorized w
          else (case at1 (split_sp authHeader) of
                  None \<Rightarrow> Done unauthorized w
                | Some token \<Rightarrow>
                    if token = [] then Done unauthorized w
                    else (let w1 = w\<lparr>trace := trace w @ [EvVerifyIdToken token]\<rparr>
                          in case verifyIdToken e token of
                               None \<Rightarrow> Done unauthorized w1
                             | Some d \<Rightarrow> Next (req\<lparr>decoded := Some d\<rparr>) w1)))"

text \<open>
  \<^verbatim>\<open>verifyAdmin\<close> and \<^verbatim>\<open>verifyTeacher\<close> (src/index.js, lines 79-98) differ in the role
  only. Reading \<^verbatim>\<open>req.decoded.email\<close> when \<^verbatim>\<open>req.decoded\<close> is \<^verbatim>\<open>undefined\<close> is a
  TypeError; neither that nor a failing lookup is caught.
\<close>

definition verifyRole :: "string \<Rightarrow> env \<Rightarrow> request \<Rightarrow> world \<Rightarrow> step" where
  "verifyRole role e req w =
     (case decoded req of
        None \<Rightarrow> Done (Unhandled TypeError) w
      | Some d \<Rightarrow>
          (case findOne e Users (field_eq ''email'' (map_of d ''email'')) w of
             Throw x w1 \<Rightarrow> Done (Unhandled x) w1
           | Ok user w1 \<Rightarrow>
               (case user of
                  None \<Rightarrow> Done forbidden w1
                | Some u \<Rightarrow>
                    if map_of u ''role'' \<noteq> Some (JStr role) then Done forbidden w1
                    else Next req w1)))"

definition verifyAdmin :: "env \<Rightarrow> request \<Rightarrow> world \<Rightarrow> step" where
  "verifyAdmin = verifyRole ''admin''"

definition verifyTeacher :: "env \<Rightarrow> request \<Rightarrow> world \<Rightarrow> step" where
  "verifyTeacher = verifyRole ''teacher''"

text \<open>
  A route is registered with its middleware in order and its handler last. Express calls
  the first; each \<^verbatim>\<open>next()\<close> calls the one after; a middleware that answers instead
  ends the chain.
\<close>

datatype guard = VerifyFirebaseToken | VerifyAdmin | VerifyTeacher

definition run_guard :: "env \<Rightarrow> guard \<Rightarrow> request \<Rightarrow> world \<Rightarrow> step" where
  "run_guard e g req w =
     (case g of
        VerifyFirebaseToken \<Rightarrow> verifyFirebaseToken e req w
      | VerifyAdmin \<Rightarrow> verifyAdmin e req w
      | VerifyTeacher \<Rightarrow> verifyTeacher e req w)"

fun run_guards :: "env \<Rightarrow> guard list \<Rightarrow> request \<Rightarrow> world \<Rightarrow> step" where
  "run_guards e [] req w = Next req w"
| "run_guards e (g # gs) req w =
     (case run_guard e g req w of
        Done out w1 \<Rightarrow> Done out w1
      | Next req1 w1 \<Rightarrow> run_guards e gs req1 w1)"

type_synonym handler = "env \<Rightarrow> request \<Rightarrow> world \<Rightarrow> outcome \<times> world"

definition run_route :: "env \<Rightarrow> guard list \<Rightarrow> handler \<Rightarrow> request \<Rightarrow> world \<Rightarrow> outcome \<times> world" where
  "run_route e gs h req w =
     (case run_guards e gs req w of
        Done out w1 \<Rightarrow> (out, w1)
      | Next req1 w1 \<Rightarrow> h e req1 w1)"

section \<open>The routes of the six snapshots\<close>

text \<open>Each route as registered: method, path and the middleware before the handler.\<close>

type_synonym route = "string \<times> string \<times> guard list"

definition guards :: "route \<Rightarrow> guard list" where
  "guards r = snd (snd r)"

definition routes_index :: "route list" where
  "routes_index =
    [(''GET'', ''/users/search'', [VerifyFirebaseToken, VerifyAdmin]),
     (''POST'', ''/user'', []),
     (''PATCH'', ''/make-admin/:id'', [VerifyFirebaseToken, VerifyAdmin]),
     (''GET'', ''/all-request'', [VerifyFirebaseToken, VerifyAdmin]),
     (''PATCH'', ''/teacher-request-status/:id'', [VerifyFirebaseToken, VerifyAdmin]),
     (''GET'', ''/admin-add-class'', [VerifyFirebaseToken, VerifyAdmin]),
     (''PATCH'', ''/class-request-status/:id'', [VerifyFirebaseToken, VerifyAdmin]),
     (''GET'', ''/top-enrolled-classes'', []),
     (''POST'', ''/teacher-request'', [VerifyFirebaseToken]),
     (''GET'', ''/get-all-classes/:email'', [VerifyFirebaseToken, VerifyTeacher]),
     (''GET'', ''/all-enrolled/:id'', [VerifyFirebaseToken, VerifyTeacher]),
     (''GET'', ''/all-assignment-count/:id'', [VerifyFirebaseToken, VerifyTeacher]),
     (''POST'', ''/add-class'', [VerifyFirebaseToken, VerifyTeacher]),
     (''GET'', ''/update-data-find/:id'', []),
     (''PUT'', ''/update-class/:id'', []),
     (''POST'', ''/add-assignment'', [VerifyFirebaseToken, VerifyTeacher]),
     (''DELETE'', ''/my-class-delete/:id'', [VerifyFirebaseToken, VerifyTeacher]),
     (''GET'', ''/approved-class-details/:id'', []),
     (''GET'', ''/user/role/:email'', [VerifyFirebaseToken]),
     (''GET'', ''/approved-classes-pagination'', []),
     (''POST'', ''/create-payment-intent'', [VerifyFirebaseToken]),
     (''POST'', ''/enroll-info'', [VerifyFirebaseToken]),
     (''PATCH'', ''/enrolled-update/:id'', [VerifyFirebaseToken]),
     (''GET'', ''/my-all-classes/:email'', [VerifyFirebaseToken]),
     (''GET'', ''/assignment-get/:id'', [VerifyFirebaseToken]),
     (''GET'', ''/get-class-for-assignment/:id'', [VerifyFirebaseToken]),
     (''POST'', ''/ter-review'', []),
     (''GET'', ''/get-ter-report/:email'', []),
     (''GET'', ''/'', [])]"

definition routes_index_earlier :: "route list" where
  "routes_index_earlier =
    [(''GET'', ''/users/search'', [VerifyFirebaseToken, VerifyAdmin]),
     (''POST'', ''/user'', []),
     (''PATCH'', ''/make-admin/:id'', [VerifyFirebaseToken, VerifyAdmin]),
     (''GET'', ''/all-request'', [VerifyFirebaseToken, VerifyAdmin]),
     (''PATCH'', ''/teacher-request-status/:id'', [VerifyFirebaseToken, VerifyAdmin]),
     (''GET'', ''/admin-add-class'', [VerifyFirebaseToken, VerifyAdmin]),
     (''PATCH'', ''/class-request-status/:id'', [VerifyFirebaseToken, VerifyAdmin]),
     (''POST'', ''/teacher-request'', [VerifyFirebaseToken, VerifyTeacher]),
     (''GET'', ''/get-all-classes/:email'', [VerifyFirebaseToken]),
     (''POST'', ''/add-class'', [VerifyFirebaseToken, VerifyTeacher]),
     (''GET'', ''/approved-classes'', []),
     (''GET'', ''/user/role/:email'', [VerifyFirebaseToken]),
     (''GET'', ''/'', [])]"

definition routes_part_000 :: "route list" where
  "routes_part_000 =
    [(''POST'', ''/user'', []),
     (''GET'', ''/'', [])]"

definition routes_part_001 :: "route list" where
  "routes_part_001 =
    [(''GET'', ''/users/search'', []),
     (''POST'', ''/user'', []),
     (''PATCH'', ''/make-admin/:id'', []),
     (''POST'', ''/teacher-request'', []),
     (''GET'', ''/all-request'', []),
     (''PATCH'', ''/teacher-request-status/:id'', []),
     (''GET'', ''/'', [])]"

definition routes_part_001_later :: "route list" where
  "routes_part_001_later =
    [(''GET'', ''/users/search'', [VerifyFirebaseToken]),
     (''POST'', ''/user'', []),
     (''PATCH'', ''/make-admin/:id'', []),
     (''POST'', ''/teacher-request'', []),
     (''GET'', ''/all-request'', [VerifyFirebaseToken]),
     (''PATCH'', ''/teacher-request-status/:id'', []),
     (''GET'', ''/'', [])]"

definition routes_part_002 :: "route list" where
  "routes_part_002 =
    [(''GET'', ''/users/search'', [VerifyFirebaseToken, VerifyAdmin]),
     (''POST'', ''/user'', []),
     (''PATCH'', ''/make-admin/:id'', [VerifyFirebaseToken, VerifyAdmin]),
     (''GET'', ''/all-request'', [VerifyFirebaseToken, VerifyAdmin]),
     (''PATCH'', ''/teacher-request-status/:id'', [VerifyFirebaseToken, VerifyAdmin]),
     (''GET'', ''/admin-add-class'', [VerifyFirebaseToken, VerifyAdmin]),
     (''PATCH'', ''/class-request-status/:id'', [VerifyFirebaseToken, VerifyAdmin]),
     (''POST'', ''/teacher-request'', [VerifyFirebaseToken]),
     (''GET'', ''/get-all-classes/:email'', [VerifyFirebaseToken]),
     (''POST'', ''/add-class'', [VerifyFirebaseToken, VerifyTeacher]),
     (''POST'', ''/add-assignment'', [VerifyFirebaseToken, VerifyTeacher]),
     (''DELETE'', ''/my-class-delete/:id'', [VerifyFirebaseToken, VerifyTeacher]),
     (''GET'', ''/approved-class-details/:id'', []),
     (''GET'', ''/user/role/:email'', [VerifyFirebaseToken]),
     (''GET'', ''/approved-classes-pagination'', []),
     (''GET'', ''/'', [])]"

definition snapshots :: "route list list" where
  "snapshots =
     [routes_index, routes_index_earlier, routes_part_000, routes_part_001,
      routes_part_001_later, routes_part_002]"

definition is_role_gate :: "guard \<Rightarrow> bool" where
  "is_role_gate g = (g = VerifyAdmin \<or> g = VerifyTeacher)"

text \<open>
  In a middleware list, every role gate has the authentication gate somewhere before it.
\<close>

fun auth_before_role :: "guard list \<Rightarrow> bool" where
  "auth_before_role [] = True"
| "auth_before_role (g # gs) =
     (if g = VerifyFirebaseToken then True
      else if is_role_gate g then False
      else auth_before_role gs)"

section \<open>The handlers\<close>

definition error_message :: "exn \<Rightarrow> string" where
  "error_message x = (case x of StoreError m \<Rightarrow> m | TypeError \<Rightarrow> ''TypeError''
                 | SyntaxError \<Rightarrow> ''SyntaxError'' | BSONError \<Rightarrow> ''BSONError'')"

text \<open>
  \<^verbatim>\<open>new RegExp(pattern, flags)\<close>, as the store applies it. For the flag \<^verbatim>\<open>i\<close> and a
  pattern of ASCII letters, digits, \<^verbatim>\<open>@\<close>, \<^verbatim>\<open>_\<close> and \<^verbatim>\<open>-\<close>, none of which is special
  in a pattern, the expression matches the ASCII strings that contain the pattern, the
  case of the letters ignored on both sides; what it matches among the strings with
  other characters is the environment's. Any other pattern or flag is the environment's
  too (\<open>None\<close>: the constructor throws).
\<close>

fun contains :: "string \<Rightarrow> string \<Rightarrow> bool" where
  "contains p [] = (p = [])"
| "contains p (c # cs) = (take (length p) (c # cs) = p \<or> contains p cs)"

definition lower :: "string \<Rightarrow> string" where
  "lower s = map (\<lambda>c. if 65 \<le> (of_char c :: nat) \<and> (of_char c :: nat) \<le> 90
                       then char_of ((of_char c :: nat) + 32) else c) s"

definition literal_char :: "char \<Rightarrow> bool" where
  "literal_char c =
     (let n = (of_char c :: nat)
      in (48 \<le> n \<and> n \<le> 57) \<or> (64 \<le> n \<and> n \<le> 90) \<or> (97 \<le> n \<and> n \<le> 122)
         \<or> n = 95 \<or> n = 45)"

definition ascii :: "string \<Rightarrow> bool" where
  "ascii s = list_all (\<lambda>c. (of_char c :: nat) < 128) s"

definition newRegExp :: "env \<Rightarrow> string \<Rightarrow> string \<Rightarrow> (string \<Rightarrow> bool) option" where
  "newRegExp e pattern flags =
     (if flags = ''i'' \<and> list_all literal_char pattern
      then Some (\<lambda>s. if ascii s then contains (lower pattern) (lower s)
                      else caseless_outside e pattern s)
      else mkRegExp e pattern flags)"

text \<open>
  \<^verbatim>\<open>GET /users/search\<close> (src/index.js, lines 102-132). The pattern is compiled before
  the \<^verbatim>\<open>try\<close>, so a pattern that \<^verbatim>\<open>RegExp\<close> refuses is not caught; an absent or
  empty parameter compiles to the pattern that matches everything and is not used.
\<close>

definition find_limit :: "env \<Rightarrow> coll \<Rightarrow> (doc \<Rightarrow> bool) \<Rightarrow> nat \<Rightarrow> world \<Rightarrow> doc list res" where
  "find_limit e c p n w =
     (case store_call e c ''find'' w of
        Throw x w1 \<Rightarrow> Throw x w1
      | Ok _ w1 \<Rightarrow> Ok (take n (filter p (get_coll c w1))) w1)"

text \<open>A string that is present and not empty, the only strings that are truthy.\<close>

definition truthy_str :: "string option \<Rightarrow> string option" where
  "truthy_str s = (case s of None \<Rightarrow> None | Some t \<Rightarrow> if t = [] then None else Some t)"

definition users_search :: handler where
  "users_search e req w =
     (let emailQuery = query_email req;
          filt = field_ne ''email'' (case decoded req of None \<Rightarrow> None | Some d \<Rightarrow> map_of d ''email'')
      in case truthy_str emailQuery of
           Some pat \<Rightarrow>
             (case newRegExp e pat ''i'' of
                None \<Rightarrow> (Unhandled SyntaxError, w)
              | Some regex \<Rightarrow>
                  (case find_limit e Users (field_regex ''email'' regex) 10 w of
                     Throw x w1 \<Rightarrow>
                       (Response 500 (BDoc [(''message'', JStr ''Error searching users'')]), w1)
                   | Ok us w1 \<Rightarrow> (Response 200 (BDocs us), w1)))
         | None \<Rightarrow>
             (case find_toArray e Users filt w of
                Throw x w1 \<Rightarrow>
                  (Response 500 (BDoc [(''message'', JStr ''Error searching users'')]), w1)
              | Ok us w1 \<Rightarrow> (Response 200 (BDocs us), w1)))"

text \<open>\<^verbatim>\<open>POST /user\<close> (src/index.js, lines 135-162; the same in every snapshot but the first).\<close>

definition user_post :: handler where
  "user_post e req w =
     (let (t1, w1) = isoNow e w;
          (t2, w2) = isoNow e w1;
          userData = set_fields
            [(''role'', JStr ''student''), (''status'', JStr ''not-verified''),
             (''create_at'', t1), (''last_loggedIn'', t2)] (body req);
          email = map_of userData ''email''
      in case findOne e Users (field_eq ''email'' email) w2 of
           Throw x w3 \<Rightarrow> (Response 500 (BDoc [(''error'', JStr (error_message x))]), w3)
         | Ok alreadyExists w3 \<Rightarrow>
             (case alreadyExists of
                Some _ \<Rightarrow>
                  (let (t3, w4) = isoNow e w3
                   in case updateOne e Users (field_eq ''email'' email) [(''last_loggedIn'', t3)] w4 of
                        Throw x w5 \<Rightarrow> (Response 500 (BDoc [(''error'', JStr (error_message x))]), w5)
                      | Ok _ w5 \<Rightarrow>
                          (Response 200
                             (BDoc [(''message'', JStr ''User already exists''),
                                    (''inserted'', JBool False)]), w5))
              | None \<Rightarrow>
                  (case insertOne e Users userData w3 of
                     Throw x w4 \<Rightarrow> (Response 500 (BDoc [(''error'', JStr (error_message x))]), w4)
                   | Ok result w4 \<Rightarrow> (Response 200 (BDoc result), w4))))"

text \<open>
  \<^verbatim>\<open>POST /user\<close> of the first snapshot (src/unnamed/part_000, lines 34-57): no status
  field, and nothing returns after the update, so the insert follows it.
\<close>

definition user_post_part_000 :: handler where
  "user_post_part_000 e req w =
     (let (t1, w1) = isoNow e w;
          (t2, w2) = isoNow e w1;
          userData = set_fields
            [(''role'', JStr ''student''), (''create_at'', t1), (''last_loggedIn'', t2)] (body req);
          email = map_of userData ''email''
      in case findOne e Users (field_eq ''email'' email) w2 of
           Throw x w3 \<Rightarrow> (Response 500 (BDoc [(''error'', JStr (error_message x))]), w3)
         | Ok alreadyExists w3 \<Rightarrow>
             (case (case alreadyExists of
                      Some _ \<Rightarrow>
                        (let (t3, w4) = isoNow e w3
                         in updateOne e Users (field_eq ''email'' email) [(''last_loggedIn'', t3)] w4)
                    | None \<Rightarrow> Ok () w3) of
                Throw x w5 \<Rightarrow> (Response 500 (BDoc [(''error'', JStr (error_message x))]), w5)
              | Ok _ w5 \<Rightarrow>
                  (case insertOne e Users userData w5 of
                     Throw x w6 \<Rightarrow> (Response 500 (BDoc [(''error'', JStr (error_message x))]), w6)
                   | Ok result w6 \<Rightarrow> (Response 200 (BDoc result), w6))))"

text \<open>
  \<^verbatim>\<open>PATCH /teacher-request-status/:id\<close> (src/index.js, lines 204-233). Both updates and
  the construction of the \<^verbatim>\<open>ObjectId\<close> are inside the \<^verbatim>\<open>try\<close>.
\<close>

definition failed_to_update :: outcome where
  "failed_to_update = Response 500 (BDoc [(''message'', JStr ''Failed to update'')])"

definition teacher_request_status :: handler where
  "teacher_request_status e req w =
     (let status = map_of (body req) ''status'';
          role = map_of (body req) ''role'';
          email = map_of (body req) ''email''
      in case mkObjectId e (Some (JStr (param_id req))) of
           None \<Rightarrow> (failed_to_update, w)
         | Some oid \<Rightarrow>
             (case updateOne e TeachOn (field_eq ''_id'' (Some oid)) [(''status'', bson status)] w of
                Throw x w1 \<Rightarrow> (failed_to_update, w1)
              | Ok _ w1 \<Rightarrow>
                  (case updateOne e Users (field_eq ''email'' email) [(''role'', bson role)] w1 of
                     Throw x w2 \<Rightarrow> (failed_to_update, w2)
                   | Ok _ w2 \<Rightarrow> (Response 200 (BDoc [(''message'', JStr ''updated'')]), w2))))"

text \<open>\<^verbatim>\<open>GET /admin-add-class\<close> (src/index.js, lines 236-244); no \<^verbatim>\<open>try\<close>.\<close>

definition admin_add_class :: handler where
  "admin_add_class e req w =
     (case find_toArray e Classes (\<lambda>_. True) w of
        Throw x w1 \<Rightarrow> (Unhandled x, w1)
      | Ok result w1 \<Rightarrow> (Response 200 (BDocs result), w1))"

text \<open>
  \<^verbatim>\<open>GET /top-enrolled-classes\<close> (src/index.js, lines 271-284): the classes with a
  positive \<^verbatim>\<open>enrolled\<close>, the largest first, six at most. The store leaves the order of
  equal keys open; the model keeps them in stored order.
\<close>

definition enrolled_of :: "doc \<Rightarrow> rat" where
  "enrolled_of d = (case map_of d ''enrolled'' of Some (JNum x) \<Rightarrow> x | _ \<Rightarrow> 0)"

definition find_sort_limit ::
  "env \<Rightarrow> coll \<Rightarrow> (doc \<Rightarrow> bool) \<Rightarrow> (doc \<Rightarrow> rat) \<Rightarrow> nat \<Rightarrow> world \<Rightarrow> doc list res" where
  "find_sort_limit e c p key n w =
     (case store_call e c ''find'' w of
        Throw x w1 \<Rightarrow> Throw x w1
      | Ok _ w1 \<Rightarrow> Ok (take n (sort_key (\<lambda>d. - key d) (filter p (get_coll c w1)))) w1)"

definition top_enrolled_classes :: handler where
  "top_enrolled_classes e req w =
     (case find_sort_limit e Classes (field_gt ''enrolled'' 0) enrolled_of 6 w of
        Throw x w1 \<Rightarrow>
          (Response 500 (BDoc [(''message'', JStr ''Server error''),
                               (''error'', JStr (error_message x))]), w1)
      | Ok topClasses w1 \<Rightarrow> (Response 200 (BDocs topClasses), w1))"

text \<open>\<^verbatim>\<open>POST /teacher-request\<close> (src/index.js, lines 288-315); no \<^verbatim>\<open>try\<close>.\<close>

definition teacher_request :: handler where
  "teacher_request e req w =
     (let (t1, w1) = isoNow e w;
          (t2, w2) = isoNow e w1;
          teachOnData = set_fields
            [(''status'', JStr ''pending''), (''create_at'', t1), (''last_request_at'', t2)]
            (body req);
          email = map_of teachOnData ''email''
      in case findOne e TeachOn (field_eq ''email'' email) w2 of
           Throw x w3 \<Rightarrow> (Unhandled x, w3)
         | Ok alreadyRequest w3 \<Rightarrow>
             (case alreadyRequest of
                Some _ \<Rightarrow>
                  (let (t3, w4) = isoNow e w3
                   in case updateOne e TeachOn (field_eq ''email'' email)
                             [(''status'', JStr ''pending''), (''last_request_at'', t3)] w4 of
                        Throw x w5 \<Rightarrow> (Unhandled x, w5)
                      | Ok _ w5 \<Rightarrow>
                          (Response 200
                             (BDoc [(''message'', JStr ''Already exists''),
                                    (''inserted'', JBool False)]), w5))
              | None \<Rightarrow>
                  (case insertOne e TeachOn teachOnData w3 of
                     Throw x w4 \<Rightarrow> (Unhandled x, w4)
                   | Ok result w4 \<Rightarrow> (Response 200 (BDoc result), w4))))"

text \<open>\<^verbatim>\<open>GET /approved-classes\<close> (src/index.js, lines 1083-1093, the earlier snapshot).\<close>

definition approved_classes :: handler where
  "approved_classes e req w =
     (case find_toArray e Classes (field_eq ''status'' (Some (JStr ''approved''))) w of
        Throw x w1 \<Rightarrow>
          (Response 500 (BDoc [(''message'', JStr ''Failed to fetch approved classes'')]), w1)
      | Ok approvedClasses w1 \<Rightarrow> (Response 200 (BDocs approvedClasses), w1))"

text \<open>
  \<^verbatim>\<open>parseInt\<close> with one argument. An absent parameter is the string
  \<^verbatim>\<open>undefined\<close>. Leading white space is skipped: the characters U+0009 to U+000D,
  U+0020, U+00A0, U+1680, U+2000 to U+200A, U+2028, U+2029, U+202F, U+205F, U+3000 and
  U+FEFF, each in its UTF-8 bytes. Then a sign is read, a \<^verbatim>\<open>0x\<close> prefix selects base 16,
  and the longest run of digits of the base is the value, as the double nearest to it;
  \<^verbatim>\<open>NaN\<close> when there is no digit.
\<close>

definition is_ws1 :: "char \<Rightarrow> bool" where
  "is_ws1 a = (let x = (of_char a :: nat) in (9 \<le> x \<and> x \<le> 13) \<or> x = 32)"

definition is_ws2 :: "char \<Rightarrow> char \<Rightarrow> bool" where
  "is_ws2 a b = ((of_char a :: nat) = 0xC2 \<and> (of_char b :: nat) = 0xA0)"

definition is_ws3 :: "char \<Rightarrow> char \<Rightarrow> char \<Rightarrow> bool" where
  "is_ws3 a b c =
     (let x = (of_char a :: nat); y = (of_char b :: nat); z = (of_char c :: nat)
      in (x = 0xE1 \<and> y = 0x9A \<and> z = 0x80)
         \<or> (x = 0xE2 \<and> y = 0x80 \<and> ((0x80 \<le> z \<and> z \<le> 0x8A) \<or> z = 0xA8 \<or> z = 0xA9 \<or> z = 0xAF))
         \<or> (x = 0xE2 \<and> y = 0x81 \<and> z = 0x9F)
         \<or> (x = 0xE3 \<and> y = 0x80 \<and> z = 0x80)
         \<or> (x = 0xEF \<and> y = 0xBB \<and> z = 0xBF))"

fun strip_ws :: "string \<Rightarrow> string" where
  "strip_ws (a # b # c # s) =
     (if is_ws1 a then strip_ws (b # c # s)
      else if is_ws2 a b then strip_ws (c # s)
      else if is_ws3 a b c then strip_ws s
      else a # b # c # s)"
| "strip_ws [a, b] = (if is_ws1 a then strip_ws [b] else if is_ws2 a b then [] else [a, b])"
| "strip_ws [a] = (if is_ws1 a then [] else [a])"
| "strip_ws [] = []"

definition digit_val :: "char \<Rightarrow> nat" where
  "digit_val c =
     (let n = (of_char c :: nat)
      in if 48 \<le> n \<and> n \<le> 57 then n - 48
         else if 97 \<le> n \<and> n \<le> 122 then n - 87
         else if 65 \<le> n \<and> n \<le> 90 then n - 55
         else 36)"

definition digits_value :: "nat \<Rightarrow> string \<Rightarrow> int" where
  "digits_value radix ds = foldl (\<lambda>a c. a * int radix + int (digit_val c)) 0 ds"

definition parseInt :: "string option \<Rightarrow> jsnum" where
  "parseInt input =
     (let s = strip_ws (case input of None \<Rightarrow> ''undefined'' | Some t \<Rightarrow> t);
          neg = (take 1 s = ''-'');
          s1 = (if take 1 s = ''-'' \<or> take 1 s = ''+'' then drop 1 s else s);
          hex = (take 2 s1 = ''0x'' \<or> take 2 s1 = ''0X'');
          radix = (if hex then 16 else 10);
          s2 = (if hex then drop 2 s1 else s1);
          ds = takeWhile (\<lambda>c. digit_val c < radix) s2
      in if ds = [] then NaN
         else fl (of_int (if neg then - digits_value radix ds else digits_value radix ds)))"

text \<open>\<^verbatim>\<open>x || 6\<close> on a number: \<^verbatim>\<open>NaN\<close> and zero are falsy.\<close>

definition or_6 :: "jsnum \<Rightarrow> jsnum" where
  "or_6 x = (case x of NaN \<Rightarrow> Num 6 | Num r \<Rightarrow> if r = 0 then Num 6 else Num r
             | Infinity b \<Rightarrow> Infinity b)"

text \<open>
  The cursor with \<^verbatim>\<open>skip\<close> and \<^verbatim>\<open>limit\<close>, for a skip that is an integer of magnitude up
  to \<open>2^53\<close> and a limit that is an integer from 0 to \<open>2^53\<close>: the server refuses a
  negative skip, and a limit of zero is no limit. Any other skip or limit is the
  environment's (a negative limit asks for one batch, whose size the server decides).
\<close>

definition cursor_range :: "env \<Rightarrow> jsnum \<Rightarrow> jsnum \<Rightarrow> string + nat \<times> nat option" where
  "cursor_range e skip limit =
     (case (skip, limit) of
        (Num k, Num l) \<Rightarrow>
          if k = of_int \<lfloor>k\<rfloor> \<and> l = of_int \<lfloor>l\<rfloor> \<and> \<bar>k\<bar> \<le> 2 ^ 53 \<and> 0 \<le> l \<and> l \<le> 2 ^ 53
          then (if k < 0 then Inl (negative_skip e)
                else Inr (nat \<lfloor>k\<rfloor>, if l = 0 then None else Some (nat \<lfloor>l\<rfloor>)))
          else cursor_outside e skip limit
      | _ \<Rightarrow> cursor_outside e skip limit)"

definition find_skip_limit ::
  "env \<Rightarrow> coll \<Rightarrow> (doc \<Rightarrow> bool) \<Rightarrow> jsnum \<Rightarrow> jsnum \<Rightarrow> world \<Rightarrow> doc list res" where
  "find_skip_limit e c p skip limit w =
     (case store_call e c ''find'' w of
        Throw x w1 \<Rightarrow> Throw x w1
      | Ok _ w1 \<Rightarrow>
          (case cursor_range e skip limit of
             Inl m \<Rightarrow> Throw (StoreError m) w1
           | Inr (k, n) \<Rightarrow>
               (let found = drop k (filter p (get_coll c w1))
                in Ok (case n of None \<Rightarrow> found | Some j \<Rightarrow> take j found) w1)))"

text \<open>
  \<^verbatim>\<open>GET /approved-classes-pagination\<close> (src/index.js, lines 511-533). The count comes
  back as a number; the error body carries the caught error itself.
\<close>

definition approved_classes_pagination :: handler where
  "approved_classes_pagination e req w =
     (let pageNo = parseInt (query_page req);
          limit = or_6 (parseInt (query_limit req));
          skip = js_mul pageNo limit;
          query = field_eq ''status'' (Some (JStr ''approved''))
      in case countDocuments e Classes query w of
           Throw x w1 \<Rightarrow> (Response 500 (BError ''Server Error'' x), w1)
         | Ok n w1 \<Rightarrow>
             (let total_n = fl (of_nat n)
              in case find_skip_limit e Classes query skip limit w1 of
                   Throw x w2 \<Rightarrow> (Response 500 (BError ''Server Error'' x), w2)
                 | Ok result w2 \<Rightarrow>
                     (Response 200
                        (BPage total_n pageNo (js_ceil (js_div total_n limit)) result), w2)))"

text \<open>
  \<^verbatim>\<open>POST /create-payment-intent\<close> (src/index.js, lines 536-570). The lookup, with the
  construction of the \<^verbatim>\<open>ObjectId\<close>, is before the \<^verbatim>\<open>try\<close>. The amount is
  \<^verbatim>\<open>classData?.price * 100\<close>, the price converted to a number as JavaScript does; a
  stored number is the double nearest to what was written.
\<close>

definition toNumber :: "env \<Rightarrow> jval option \<Rightarrow> jsnum" where
  "toNumber e v =
     (case v of
        None \<Rightarrow> NaN
      | Some JNull \<Rightarrow> Num 0
      | Some (JBool b) \<Rightarrow> Num (if b then 1 else 0)
      | Some (JNum x) \<Rightarrow> fl x
      | Some (JStr s) \<Rightarrow> strToNumber e s
      | Some (JOid h) \<Rightarrow> strToNumber e h)"

definition create_payment_intent :: handler where
  "create_payment_intent e req w =
     (let courseId = map_of (body req) ''courseId''
      in case newObjectId e (classes w) courseId of
           None \<Rightarrow> (Unhandled BSONError, w)
         | Some oid \<Rightarrow>
             (case findOne e Classes (field_eq ''_id'' (Some oid)) w of
                Throw x w1 \<Rightarrow> (Unhandled x, w1)
              | Ok None w1 \<Rightarrow>
                  (Response 404
                     (BDoc [(''message'', JStr ''Not found any classData by this class ID'')]), w1)
              | Ok (Some classData) w1 \<Rightarrow>
                  (let coursePriceCents = js_mul (toNumber e (map_of classData ''price'')) (Num 100);
                       w2 = w1\<lparr>trace := trace w1 @ [EvPaymentIntent coursePriceCents]\<rparr>
                   in case createPaymentIntent e coursePriceCents of
                        Inl m \<Rightarrow> (Response 500 (BDoc [(''error'', JStr m)]), w2)
                      | Inr paymentIntent \<Rightarrow>
                          (Response 200
                             (BDoc (case map_of paymentIntent ''client_secret'' of
                                      None \<Rightarrow> []
                                    | Some secret \<Rightarrow> [(''clientSecret'', secret)])), w2))))"

section \<open>An environment and data to run the handlers on\<close>

text \<open>
  An environment in which no store call fails: two tokens are accepted, an
  \<^verbatim>\<open>ObjectId\<close> is made of a string of 24 hexadecimal digits, read in lower case, the
  payment provider takes positive whole amounts, no string converts to a number, and
  the store refuses a negative skip. Patterns with regular-expression syntax, and skips
  and limits outside the integers that the cursor is known on, are not exercised on it:
  it compiles none of the former and refuses the latter.
\<close>

definition is_hex :: "char \<Rightarrow> bool" where
  "is_hex c = (digit_val c < 16)"

definition env0 :: env where
  "env0 =
     \<lparr>verifyIdToken = (\<lambda>t. if t = ''admin-token'' then Some [(''email'', JStr ''admin@x.com'')]
                            else if t = ''user-token'' then Some [(''email'', JStr ''a@x.com'')]
                            else None),
      store_error = (\<lambda>_. None),
      now = (\<lambda>n. ''t'' @ replicate n CHR ''+''),
      createPaymentIntent =
        (\<lambda>a. case a of
                Num x \<Rightarrow>
                  if 0 < x \<and> x = of_int \<lfloor>x\<rfloor>
                  then Inr [(''id'', JStr ''pi_1''), (''amount'', JNum x),
                            (''client_secret'', JStr ''pi_1_secret'')]
                  else Inl ''Invalid integer''
              | _ \<Rightarrow> Inl ''Invalid integer''),
      mkObjectId = (\<lambda>v. case v of
                           Some (JStr s) \<Rightarrow>
                             if length s = 24 \<and> list_all is_hex s then Some (JOid (lower s))
                             else None
                         | Some (JOid h) \<Rightarrow> Some (JOid h)
                         | _ \<Rightarrow> None),
      mkRegExp = (\<lambda>p f. None),
      caseless_outside = (\<lambda>p s. contains (lower p) (lower s)),
      strToNumber = (\<lambda>_. NaN),
      negative_skip = ''skip value must be >= 0'',
      cursor_outside = (\<lambda>k l. Inl ''skip and limit must be integers'')\<rparr>"

definition world0 :: world where
  "world0 = \<lparr>users = [], teachOn = [], classes = [], trace = [], ticks = 0\<rparr>"

definition request0 :: request where
  "request0 =
     \<lparr>authorization = None, body = [], param_id = [], query_email = None,
      query_page = None, query_limit = None, decoded = None\<rparr>"

definition admin_user :: doc where
  "admin_user = [(''_id'', JOid ''u1''), (''email'', JStr ''admin@x.com''), (''role'', JStr ''admin'')]"

definition student_user :: doc where
  "student_user =
     [(''_id'', JOid ''u2''), (''email'', JStr ''a@x.com''), (''role'', JStr ''student''),
      (''status'', JStr ''not-verified''), (''create_at'', JStr ''t0''),
      (''last_loggedIn'', JStr ''t0'')]"

text \<open>
  In a run of the gates up to some point, a token has been verified and the request
  carries what the oracle returned for it.
\<close>

definition verified_in :: "env \<Rightarrow> nat \<Rightarrow> request \<Rightarrow> world \<Rightarrow> bool" where
  "verified_in e n req w =
     (\<exists>tok d. verifyIdToken e tok = Some d \<and> decoded req = Some d
              \<and> EvVerifyIdToken tok \<in> set (drop n (trace w)))"

definition teacher_req :: doc where
  "teacher_req =
     [(''_id'', JOid ''r1''), (''email'', JStr ''a@x.com''), (''experience'', JStr ''mid''),
      (''status'', JStr ''rejected''), (''create_at'', JStr ''t0''),
      (''last_request_at'', JStr ''t0'')]"

definition class_n :: "string \<Rightarrow> nat \<Rightarrow> doc" where
  "class_n st n = [(''title'', JStr (replicate n CHR ''c'')), (''status'', JStr st)]"

definition fourteen_classes :: "doc list" where
  "fourteen_classes = class_n ''pending'' 0 # map (class_n ''approved'') [1..<14]"

definition failing_second :: env where
  "failing_second = env0\<lparr>store_error := (\<lambda>n. if n = 1 then Some ''connection closed'' else None)\<rparr>"

definition status_request :: request where
  "status_request =
     request0\<lparr>param_id := ''0123456789abcdef01234567'',
              body := [(''status'', JStr ''approved''), (''role'', JStr ''teacher''),
                       (''email'', JStr ''a@x.com'')]\<rparr>"

definition status_world :: world where
  "status_world =
     world0\<lparr>users := [[(''email'', JStr ''a@x.com''), (''role'', JStr ''student'')]],
            teachOn := [[(''_id'', JOid ''0123456789abcdef01234567''),
                         (''email'', JStr ''a@x.com''), (''status'', JStr ''pending'')]]\<rparr>"

definition pending_enrolled_class :: doc where
  "pending_enrolled_class =
     [(''title'', JStr ''Algebra''), (''status'', JStr ''pending''), (''enrolled'', JNum 3)]"

definition eighth_price_class :: doc where
  "eighth_price_class =
     [(''_id'', JOid ''0123456789abcdef01234567''), (''title'', JStr ''Algebra''),
      (''status'', JStr ''approved''), (''price'', JNum (1 / 8))]"

definition decimal_price_class :: doc where
  "decimal_price_class =
     [(''_id'', JOid ''0123456789abcdef01234567''), (''title'', JStr ''Algebra''),
      (''status'', JStr ''approved''), (''price'', JNum (1999 / 100))]"

definition sign_in :: request where
  "sign_in = request0\<lparr>body := [(''email'', JStr ''a@x.com'')]\<rparr>"

definition one_user :: world where
  "one_user = world0\<lparr>users := [student_user]\<rparr>"

definition sign_up_with_id :: request where
  "sign_up_with_id = request0\<lparr>body := [(''_id'', JStr ''mine''), (''email'', JStr ''b@x.com'')]\<rparr>"

section \<open>Properties of the gates\<close>

lemma bearer_only:
  "startsWith h ''Bearer '' \<Longrightarrow> drop (length ''Bearer '') h = [] \<Longrightarrow> h = ''Bearer ''"
  unfolding startsWith_def by (metis append_take_drop_id append_Nil2)

text \<open>
  C1. A request to a route whose first middleware is the authentication gate, with no
  Authorization header, or with a header that does not start with \<^verbatim>\<open>Bearer \<close>, or with
  nothing after that prefix, is answered 401; the world is as before (no call to the
  identity oracle, no store call), and the answer does not depend on the rest of the
  chain or on the handler, which are not reached.
\<close>

theorem C1_malformed_header_rejected:
  assumes "authorization req = None
           \<or> (\<exists>h. authorization req = Some h
                  \<and> (\<not> startsWith h ''Bearer '' \<or> drop (length ''Bearer '') h = []))"
  shows "run_guards e (VerifyFirebaseToken # gs) req w
           = Done (Response 401 (BDoc [(''message'', JStr ''Unauthorized access'')])) w
         \<and> run_route e (VerifyFirebaseToken # gs) handler req w
           = (Response 401 (BDoc [(''message'', JStr ''Unauthorized access'')]), w)"
proof -
  have "verifyFirebaseToken e req w = Done unauthorized w"
  proof (cases "authorization req")
    case None
    then show ?thesis by (simp add: verifyFirebaseToken_def)
  next
    case (Some h)
    with assms have bad: "\<not> startsWith h ''Bearer '' \<or> drop (length ''Bearer '') h = []"
      by simp
    show ?thesis
    proof (cases "startsWith h ''Bearer ''")
      case False
      with Some show ?thesis by (simp add: verifyFirebaseToken_def)
    next
      case True
      with bad have "h = ''Bearer ''" using bearer_only by blast
      with Some show ?thesis
        by (simp add: verifyFirebaseToken_def startsWith_def at1_def)
    qed
  qed
  then show ?thesis
    by (simp add: run_route_def run_guard_def unauthorized_def)
qed

theorem C1_malformed_header_rejected_witness:
  "authorization (request0\<lparr>authorization := Some ''Bearer ''\<rparr>) = Some ''Bearer ''
   \<and> drop (length ''Bearer '') ''Bearer '' = []
   \<and> run_guards env0 [VerifyFirebaseToken, VerifyAdmin]
       (request0\<lparr>authorization := Some ''Bearer ''\<rparr>) world0
     = Done (Response 401 (BDoc [(''message'', JStr ''Unauthorized access'')])) world0
   \<and> run_route env0 [VerifyFirebaseToken, VerifyAdmin] admin_add_class
       (request0\<lparr>authorization := Some ''Bearer ''\<rparr>) world0
     = (Response 401 (BDoc [(''message'', JStr ''Unauthorized access'')]), world0)"
  using C1_malformed_header_rejected
          [of "request0\<lparr>authorization := Some ''Bearer ''\<rparr>" env0 "[VerifyAdmin]" world0
              admin_add_class]
  by (simp add: request0_def)

lemma verifyFirebaseToken_Next:
  assumes "verifyFirebaseToken e req w = Next req1 w1"
  shows "\<exists>tok d. verifyIdToken e tok = Some d \<and> req1 = req\<lparr>decoded := Some d\<rparr>
                 \<and> w1 = w\<lparr>trace := trace w @ [EvVerifyIdToken tok]\<rparr>"
  using assms
  by (auto simp: verifyFirebaseToken_def Let_def split: option.splits if_splits)

lemma verifyRole_Next:
  assumes "verifyRole role e req w = Next req1 w1"
  shows "req1 = req \<and> w1 = w\<lparr>trace := trace w @ [EvStore Users ''findOne'']\<rparr>"
  using assms
  by (auto simp: verifyRole_def findOne_def store_call_def Let_def
           split: option.splits if_splits res.splits)

text \<open>
  C2. On a route with the authentication gate and then a role gate, when the token has
  been verified (the authentication gate called \<^verbatim>\<open>next\<close>) and the lookup of the user
  by the verified email completes: if no user record matches, or the first matching
  record's role is not the required one (\<^verbatim>\<open>admin\<close> for \<^verbatim>\<open>verifyAdmin\<close>,
  \<^verbatim>\<open>teacher\<close> for \<^verbatim>\<open>verifyTeacher\<close>), the answer is 403 and the only effect is the
  lookup, whatever the handler is; if the role is the required one, the result is the
  handler's, run on the request that carries the verified identity.
\<close>

theorem C2_role_gate:
  assumes verified: "verifyFirebaseToken e req w = Next req1 w1"
      and ident: "decoded req1 = Some d"
      and gate: "(g = VerifyAdmin \<and> role = ''admin'') \<or> (g = VerifyTeacher \<and> role = ''teacher'')"
      and lookup: "store_error e (length (trace w1)) = None"
      and w2: "w2 = w1\<lparr>trace := trace w1 @ [EvStore Users ''findOne'']\<rparr>"
  shows "run_route e [VerifyFirebaseToken, g] handler req w =
           (case List.find (field_eq ''email'' (map_of d ''email'')) (users w1) of
              None \<Rightarrow> (Response 403 (BDoc [(''message'', JStr ''Forbidden Access'')]), w2)
            | Some u \<Rightarrow>
                if map_of u ''role'' = Some (JStr role) then handler e req1 w2
                else (Response 403 (BDoc [(''message'', JStr ''Forbidden Access'')]), w2))"
proof -
  have g: "run_guard e g req1 w1 = verifyRole role e req1 w1"
    using gate by (auto simp: run_guard_def verifyAdmin_def verifyTeacher_def)
  have "verifyRole role e req1 w1 =
          (case List.find (field_eq ''email'' (map_of d ''email'')) (users w1) of
             None \<Rightarrow> Done forbidden w2
           | Some u \<Rightarrow> if map_of u ''role'' = Some (JStr role) then Next req1 w2
                        else Done forbidden w2)"
    using ident lookup w2
    by (simp add: verifyRole_def findOne_def store_call_def get_coll_def Let_def
             split: option.splits)
  with g verified show ?thesis
    by (simp add: run_route_def run_guard_def forbidden_def split: option.splits)
qed

theorem C2_role_gate_witness:
  "verifyFirebaseToken env0 (request0\<lparr>authorization := Some ''Bearer admin-token''\<rparr>)
       (world0\<lparr>users := [student_user, admin_user]\<rparr>)
     = Next (request0\<lparr>authorization := Some ''Bearer admin-token'',
                      decoded := Some [(''email'', JStr ''admin@x.com'')]\<rparr>)
            (world0\<lparr>users := [student_user, admin_user],
                    trace := [EvVerifyIdToken ''admin-token'']\<rparr>)
   \<and> run_route env0 [VerifyFirebaseToken, VerifyAdmin] admin_add_class
       (request0\<lparr>authorization := Some ''Bearer admin-token''\<rparr>)
       (world0\<lparr>users := [student_user, admin_user]\<rparr>)
     = (Response 200 (BDocs []),
        world0\<lparr>users := [student_user, admin_user],
               trace := [EvVerifyIdToken ''admin-token'', EvStore Users ''findOne'',
                         EvStore Classes ''find'']\<rparr>)
   \<and> run_route env0 [VerifyFirebaseToken, VerifyTeacher] admin_add_class
       (request0\<lparr>authorization := Some ''Bearer admin-token''\<rparr>)
       (world0\<lparr>users := [student_user, admin_user]\<rparr>)
     = (Response 403 (BDoc [(''message'', JStr ''Forbidden Access'')]),
        world0\<lparr>users := [student_user, admin_user],
               trace := [EvVerifyIdToken ''admin-token'', EvStore Users ''findOne'']\<rparr>)"
  using C2_role_gate
          [of env0 "request0\<lparr>authorization := Some ''Bearer admin-token''\<rparr>"
              "world0\<lparr>users := [student_user, admin_user]\<rparr>"
              "request0\<lparr>authorization := Some ''Bearer admin-token'',
                        decoded := Some [(''email'', JStr ''admin@x.com'')]\<rparr>"
              "world0\<lparr>users := [student_user, admin_user],
                      trace := [EvVerifyIdToken ''admin-token'']\<rparr>"
              "[(''email'', JStr ''admin@x.com'')]" VerifyAdmin "''admin''"
              "world0\<lparr>users := [student_user, admin_user],
                      trace := [EvVerifyIdToken ''admin-token'', EvStore Users ''findOne'']\<rparr>"
              admin_add_class]
        C2_role_gate
          [of env0 "request0\<lparr>authorization := Some ''Bearer admin-token''\<rparr>"
              "world0\<lparr>users := [student_user, admin_user]\<rparr>"
              "request0\<lparr>authorization := Some ''Bearer admin-token'',
                        decoded := Some [(''email'', JStr ''admin@x.com'')]\<rparr>"
              "world0\<lparr>users := [student_user, admin_user],
                      trace := [EvVerifyIdToken ''admin-token'']\<rparr>"
              "[(''email'', JStr ''admin@x.com'')]" VerifyTeacher "''teacher''"
              "world0\<lparr>users := [student_user, admin_user],
                      trace := [EvVerifyIdToken ''admin-token'', EvStore Users ''findOne'']\<rparr>"
              admin_add_class]
  by (simp add: verifyFirebaseToken_def startsWith_def at1_def env0_def request0_def
        world0_def field_eq_def bson_def student_user_def admin_user_def admin_add_class_def
        find_toArray_def store_call_def get_coll_def)

lemma run_guards_append:
  "run_guards e (pre @ gs) req w =
     (case run_guards e pre req w of
        Done out w1 \<Rightarrow> Done out w1
      | Next req1 w1 \<Rightarrow> run_guards e gs req1 w1)"
  by (induction pre arbitrary: req w) (auto split: step.splits)

lemma run_guard_trace:
  assumes "run_guard e g req w = Next req1 w1"
  shows "\<exists>evs. trace w1 = trace w @ evs"
  using assms
  by (cases g)
     (auto simp: run_guard_def verifyAdmin_def verifyTeacher_def
           dest!: verifyFirebaseToken_Next verifyRole_Next)

lemma run_guards_trace:
  "run_guards e gs req w = Next req1 w1 \<Longrightarrow> \<exists>evs. trace w1 = trace w @ evs"
proof (induction gs arbitrary: req w)
  case Nil
  then show ?case by simp
next
  case (Cons g gs)
  from Cons.prems obtain r2 w2 where
    step: "run_guard e g req w = Next r2 w2" and rest: "run_guards e gs r2 w2 = Next req1 w1"
    by (auto split: step.splits)
  from step obtain evs where "trace w2 = trace w @ evs" using run_guard_trace by blast
  moreover from rest obtain evs2 where "trace w1 = trace w2 @ evs2" using Cons.IH by blast
  ultimately show ?case by simp
qed

lemma run_guard_verified:
  assumes "run_guard e g req w = Next req1 w1" "n \<le> length (trace w)"
      and "verified_in e n req w \<or> g = VerifyFirebaseToken"
  shows "verified_in e n req1 w1 \<and> n \<le> length (trace w1)"
proof (cases g)
  case VerifyFirebaseToken
  with assms(1) have "verifyFirebaseToken e req w = Next req1 w1"
    by (simp add: run_guard_def)
  from verifyFirebaseToken_Next[OF this] obtain tok d where
    "verifyIdToken e tok = Some d" "req1 = req\<lparr>decoded := Some d\<rparr>"
    "w1 = w\<lparr>trace := trace w @ [EvVerifyIdToken tok]\<rparr>"
    by blast
  with assms(2) show ?thesis
    unfolding verified_in_def by auto
next
  case VerifyAdmin
  with assms have "req1 = req \<and> w1 = w\<lparr>trace := trace w @ [EvStore Users ''findOne'']\<rparr>"
    by (auto simp: run_guard_def verifyAdmin_def dest: verifyRole_Next)
  with assms VerifyAdmin show ?thesis
    unfolding verified_in_def by auto
next
  case VerifyTeacher
  with assms have "req1 = req \<and> w1 = w\<lparr>trace := trace w @ [EvStore Users ''findOne'']\<rparr>"
    by (auto simp: run_guard_def verifyTeacher_def dest: verifyRole_Next)
  with assms VerifyTeacher show ?thesis
    unfolding verified_in_def by auto
qed

lemma run_guards_verified:
  assumes "run_guards e gs req w = Next req1 w1" "n \<le> length (trace w)"
      and "verified_in e n req w \<or> VerifyFirebaseToken \<in> set gs"
  shows "verified_in e n req1 w1"
  using assms
proof (induction gs arbitrary: req w)
  case Nil
  then show ?case by simp
next
  case (Cons g gs)
  from Cons.prems(1) obtain r2 w2 where
    step: "run_guard e g req w = Next r2 w2" and rest: "run_guards e gs r2 w2 = Next req1 w1"
    by (auto split: step.splits)
  show ?case
  proof (cases "verified_in e n req w \<or> g = VerifyFirebaseToken")
    case True
    with step Cons.prems(2) have "verified_in e n r2 w2 \<and> n \<le> length (trace w2)"
      using run_guard_verified by blast
    with rest show ?thesis using Cons.IH by blast
  next
    case False
    with Cons.prems(3) have "VerifyFirebaseToken \<in> set gs" by auto
    moreover from step obtain evs where "trace w2 = trace w @ evs"
      using run_guard_trace by blast
    with Cons.prems(2) have "n \<le> length (trace w2)" by simp
    ultimately show ?thesis using rest Cons.IH by blast
  qed
qed

lemma auth_before_role_prefix:
  "auth_before_role gs \<Longrightarrow> gs = pre @ g # post \<Longrightarrow> is_role_gate g
   \<Longrightarrow> VerifyFirebaseToken \<in> set pre"
proof (induction gs arbitrary: pre)
  case Nil
  then show ?case by simp
next
  case (Cons a gs)
  show ?case
  proof (cases pre)
    case Nil
    with Cons.prems show ?thesis by (auto simp: is_role_gate_def split: if_splits)
  next
    case (Cons b pre')
    with Cons.prems Cons.IH[of pre'] show ?thesis by (auto split: if_splits)
  qed
qed

lemma snapshots_auth_before_role:
  "T \<in> set snapshots \<Longrightarrow> r \<in> set T \<Longrightarrow> auth_before_role (guards r)"
  unfolding snapshots_def routes_index_def routes_index_earlier_def routes_part_000_def
    routes_part_001_def routes_part_001_later_def routes_part_002_def
  by (auto simp: guards_def is_role_gate_def)

text \<open>
  C3. In every snapshot, on every route with a role gate in its middleware list, the
  authentication gate stands in the part of the list before the role gate. The role
  gate, and with it its lookup of the user, runs exactly when that part has called
  \<^verbatim>\<open>next\<close> throughout; whenever it has, a token was verified by the identity oracle
  during the run and the request carries what the oracle returned, the identity the role
  gate reads.
\<close>

theorem C3_role_gate_after_auth:
  assumes "T \<in> set snapshots" and "r \<in> set T"
      and "guards r = pre @ g # post" and "is_role_gate g"
  shows "VerifyFirebaseToken \<in> set pre
         \<and> (\<forall>e req w.
               run_guards e (guards r) req w =
                 (case run_guards e pre req w of
                    Done out w1 \<Rightarrow> Done out w1
                  | Next req1 w1 \<Rightarrow> run_guards e (g # post) req1 w1))
         \<and> (\<forall>e req w req1 w1. run_guards e pre req w = Next req1 w1 \<longrightarrow>
               (\<exists>tok d evs. verifyIdToken e tok = Some d \<and> decoded req1 = Some d
                   \<and> trace w1 = trace w @ evs \<and> EvVerifyIdToken tok \<in> set evs))"
proof -
  have split: "run_guards e (guards r) req w =
                 (case run_guards e pre req w of
                    Done out w1 \<Rightarrow> Done out w1
                  | Next req1 w1 \<Rightarrow> run_guards e (g # post) req1 w1)" for e req w
    using assms(3) run_guards_append[of e pre "g # post" req w] by simp
  have auth: "VerifyFirebaseToken \<in> set pre"
    using assms snapshots_auth_before_role auth_before_role_prefix by blast
  have "\<exists>tok d evs. verifyIdToken e tok = Some d \<and> decoded req1 = Some d
                   \<and> trace w1 = trace w @ evs \<and> EvVerifyIdToken tok \<in> set evs"
    if run: "run_guards e pre req w = Next req1 w1" for e req w req1 w1
  proof -
    have "verified_in e (length (trace w)) req1 w1"
      using run_guards_verified[OF run, of "length (trace w)"] auth by simp
    moreover have "\<exists>evs. trace w1 = trace w @ evs"
      using run run_guards_trace by blast
    ultimately show ?thesis unfolding verified_in_def by auto
  qed
  with auth split show ?thesis by blast
qed

theorem C3_role_gate_after_auth_witness:
  "routes_index \<in> set snapshots
   \<and> (''GET'', ''/users/search'', [VerifyFirebaseToken, VerifyAdmin]) \<in> set routes_index
   \<and> guards (''GET'', ''/users/search'', [VerifyFirebaseToken, VerifyAdmin])
       = [VerifyFirebaseToken] @ VerifyAdmin # []
   \<and> is_role_gate VerifyAdmin
   \<and> VerifyFirebaseToken \<in> set [VerifyFirebaseToken]
   \<and> run_guards env0 [VerifyFirebaseToken]
        (request0\<lparr>authorization := Some ''Bearer admin-token''\<rparr>) world0
      = Next (request0\<lparr>authorization := Some ''Bearer admin-token'',
                       decoded := Some [(''email'', JStr ''admin@x.com'')]\<rparr>)
             (world0\<lparr>trace := [EvVerifyIdToken ''admin-token'']\<rparr>)
   \<and> (\<exists>tok d evs. verifyIdToken env0 tok = Some d
         \<and> decoded (request0\<lparr>authorization := Some ''Bearer admin-token'',
                              decoded := Some [(''email'', JStr ''admin@x.com'')]\<rparr>) = Some d
         \<and> trace (world0\<lparr>trace := [EvVerifyIdToken ''admin-token'']\<rparr>) = trace world0 @ evs
         \<and> EvVerifyIdToken tok \<in> set evs)"
proof -
  have run: "run_guards env0 [VerifyFirebaseToken]
        (request0\<lparr>authorization := Some ''Bearer admin-token''\<rparr>) world0
      = Next (request0\<lparr>authorization := Some ''Bearer admin-token'',
                       decoded := Some [(''email'', JStr ''admin@x.com'')]\<rparr>)
             (world0\<lparr>trace := [EvVerifyIdToken ''admin-token'']\<rparr>)"
    by (simp add: run_guard_def verifyFirebaseToken_def startsWith_def at1_def env0_def
          request0_def world0_def)
  have a: "routes_index \<in> set snapshots" by (simp add: snapshots_def)
  have b: "(''GET'', ''/users/search'', [VerifyFirebaseToken, VerifyAdmin]) \<in> set routes_index"
    by (simp add: routes_index_def)
  have c: "guards (''GET'', ''/users/search'', [VerifyFirebaseToken, VerifyAdmin])
       = [VerifyFirebaseToken] @ VerifyAdmin # []" by (simp add: guards_def)
  have d: "is_role_gate VerifyAdmin" by (simp add: is_role_gate_def)
  from C3_role_gate_after_auth[OF a b c d, THEN conjunct2, THEN conjunct2] run
  have "\<exists>tok d evs. verifyIdToken env0 tok = Some d
         \<and> decoded (request0\<lparr>authorization := Some ''Bearer admin-token'',
                              decoded := Some [(''email'', JStr ''admin@x.com'')]\<rparr>) = Some d
         \<and> trace (world0\<lparr>trace := [EvVerifyIdToken ''admin-token'']\<rparr>) = trace world0 @ evs
         \<and> EvVerifyIdToken tok \<in> set evs"
    by blast
  with run a b c d show ?thesis by simp
qed

section \<open>Properties of the numbers\<close>

text \<open>
  Rounding to a double leaves the integers of magnitude up to \<open>2^53\<close> as they are, and
  the ceiling of a rounded quotient of two such integers, the divisor positive, is the
  ceiling of the quotient.
\<close>

lemma pow2_pos: "0 < pow2 k"
  by (simp add: pow2_def)

lemma pow2_nonneg_exp: "0 \<le> k \<Longrightarrow> pow2 k = 2 ^ nat k"
  by (simp add: pow2_def)

lemma pow2_neg_exp: "k \<le> 0 \<Longrightarrow> pow2 k = 1 / 2 ^ nat (- k)"
  by (cases "k = 0") (simp_all add: pow2_def)

lemma pow2_mono: "j \<le> k \<Longrightarrow> pow2 j \<le> pow2 k"
proof -
  assume jk: "j \<le> k"
  have "pow2 j = 2 powi j" "pow2 k = 2 powi k"
    by (simp_all add: pow2_def power_int_def field_simps)
  then show ?thesis using jk by (simp add: power_int_increasing)
qed

lemma ilog2_bounds:
  assumes "0 < a"
  shows "pow2 (ilog2 a) \<le> a \<and> a < pow2 (ilog2 a + 1)"
proof (cases "1 \<le> a")
  case True
  define n where "n = \<lfloor>a\<rfloor>"
  define b where "b = bitlen n"
  have n1: "1 \<le> n" using True by (simp add: n_def)
  then have npos: "0 < n" by simp
  from bitlen_bounds[OF npos] have lo: "2 ^ nat (b - 1) \<le> n" and hi: "n < 2 ^ nat b"
    by (simp_all add: b_def)
  have b1: "1 \<le> b" using npos bitlen_eq_zero_iff[of n] bitlen_nonneg[of n]
    by (auto simp: b_def)
  have il: "ilog2 a = b - 1" using True by (simp add: ilog2_def n_def b_def)
  have "(2::rat) ^ nat (b - 1) \<le> of_int n"
    using lo by (metis of_int_le_iff of_int_numeral of_int_power)
  also have "\<dots> \<le> a" by (simp add: n_def)
  finally have 1: "pow2 (b - 1) \<le> a" using b1 by (simp add: pow2_nonneg_exp)
  have "n + 1 \<le> 2 ^ nat b" using hi by simp
  then have "(of_int (n + 1) :: rat) \<le> 2 ^ nat b"
    by (metis of_int_le_iff of_int_numeral of_int_power)
  moreover have "a < of_int (n + 1)" using floor_correct[of a] by (simp add: n_def)
  ultimately have "a < 2 ^ nat b" by linarith
  then have 2: "a < pow2 b" using b1 by (simp add: pow2_nonneg_exp)
  from 1 2 il show ?thesis by simp
next
  case False
  then have a1: "a < 1" by simp
  define c where "c = \<lceil>1 / a\<rceil>"
  define b where "b = bitlen (c - 1)"
  have inv: "1 < 1 / a" using assms a1 by simp
  then have c2: "2 \<le> c" unfolding c_def by (simp add: less_ceiling_iff le_ceiling_iff) 
  then have cpos: "0 < c - 1" by simp
  from bitlen_bounds[OF cpos] have lo: "2 ^ nat (b - 1) \<le> c - 1" and hi: "c - 1 < 2 ^ nat b"
    by (simp_all add: b_def)
  have b1: "1 \<le> b" using cpos bitlen_eq_zero_iff[of "c - 1"] bitlen_nonneg[of "c - 1"]
    by (auto simp: b_def)
  have il: "ilog2 a = - b" using False by (simp add: ilog2_def c_def b_def)
  have "c \<le> 2 ^ nat b" using hi by simp
  then have "(of_int c :: rat) \<le> 2 ^ nat b"
    by (metis of_int_le_iff of_int_numeral of_int_power)
  moreover have "1 / a \<le> of_int c" by (simp add: c_def)
  ultimately have "1 / a \<le> 2 ^ nat b" by linarith
  then have "1 \<le> 2 ^ nat b * a" using assms by (simp add: field_simps)
  then have 1: "pow2 (- b) \<le> a" using b1 by (simp add: pow2_neg_exp field_simps)
  have "(2::rat) ^ nat (b - 1) \<le> of_int (c - 1)"
    using lo by (metis of_int_le_iff of_int_numeral of_int_power)
  moreover have "of_int (c - 1) < 1 / a" unfolding c_def
    by (metis ceiling_correct diff_less_eq of_int_1 of_int_diff)  
  ultimately have "(2::rat) ^ nat (b - 1) < 1 / a" by linarith
  then have "a * 2 ^ nat (b - 1) < 1" using assms by (simp add: field_simps)
  then have "a < 1 / 2 ^ nat (b - 1)" by (simp add: field_simps)
  moreover have "pow2 (- b + 1) = 1 / 2 ^ nat (b - 1)"
    using b1 by (simp add: pow2_neg_exp)
  ultimately have 2: "a < pow2 (- b + 1)" by simp
  from 1 2 il show ?thesis by simp
qed

lemma round_half_even_of_int: "round_half_even (of_int j) = j"
  by (simp add: round_half_even_def)

lemma round_half_even_ge:
  assumes "of_int j \<le> m"
  shows "j \<le> round_half_even m"
proof -
  have "j \<le> \<lfloor>m\<rfloor>" using assms by (simp add: le_floor_iff)
  then show ?thesis by (auto simp: round_half_even_def Let_def)
qed

lemma round_half_even_le:
  assumes "m \<le> of_int j"
  shows "round_half_even m \<le> j"
proof (cases "m = of_int j")
  case True
  then show ?thesis by (simp add: round_half_even_of_int)
next
  case False
  with assms have "m < of_int j" by simp
  then have "\<lfloor>m\<rfloor> < j" by (simp add: floor_less_iff)
  then show ?thesis by (auto simp: round_half_even_def Let_def)
qed

lemma round_half_even_up:
  assumes "of_int j + 1 / 2 < m"
  shows "j + 1 \<le> round_half_even m"
proof (cases "of_int (j + 1) \<le> m")
  case True
  then show ?thesis by (rule round_half_even_ge)
next
  case False
  then have "m < of_int j + 1" by simp
  moreover have "of_int j \<le> m" using assms by simp
  ultimately have f: "\<lfloor>m\<rfloor> = j" by (simp add: floor_unique)
  then have "1 / 2 < m - of_int \<lfloor>m\<rfloor>" using assms by simp
  then show ?thesis using f by (simp add: round_half_even_def Let_def)
qed


lemma pow2_powi: "pow2 k = 2 powi k"
  by (simp add: pow2_def power_int_def field_simps)

lemma pow2_add: "pow2 (j + k) = pow2 j * pow2 k"
  by (simp add: pow2_powi power_int_add)

lemma pow2_strict_mono: "j < k \<Longrightarrow> pow2 j < pow2 k"
  by (simp add: pow2_powi power_int_strict_increasing)

lemma pow2_53_less_1024: "(2::rat) ^ 53 < pow2 1024"
proof -
  have "pow2 53 < pow2 1024" by (rule pow2_strict_mono) simp
  then show ?thesis by (simp add: pow2_def)
qed

lemma ilog2_zero: "ilog2 0 = 0"
  by (simp add: ilog2_def bitlen_def floorlog_def)

lemma overflow_iff:
  assumes "0 \<le> v"
  shows "(1024 \<le> ilog2 v) = (pow2 1024 \<le> v)"
proof (cases "v = 0")
  case True
  then show ?thesis using pow2_pos[of 1024] by (simp add: ilog2_zero)
next
  case False
  then have vpos: "0 < v" using assms by simp
  from ilog2_bounds[OF vpos] have lo: "pow2 (ilog2 v) \<le> v" and hi: "v < pow2 (ilog2 v + 1)"
    by simp_all
  show ?thesis
  proof
    assume "1024 \<le> ilog2 v"
    then have "pow2 1024 \<le> pow2 (ilog2 v)" by (rule pow2_mono)
    with lo show "pow2 1024 \<le> v" by linarith
  next
    assume big: "pow2 1024 \<le> v"
    show "1024 \<le> ilog2 v"
    proof (rule ccontr)
      assume "\<not> 1024 \<le> ilog2 v"
      then have "ilog2 v + 1 \<le> 1024" by simp
      then have "pow2 (ilog2 v + 1) \<le> pow2 1024" by (rule pow2_mono)
      with hi big show False by linarith
    qed
  qed
qed

lemma fl_exact:
  assumes nz: "x \<noteq> 0"
      and j: "\<bar>x\<bar> / pow2 (max (ilog2 \<bar>x\<bar> - 52) (- 1074)) = of_int j"
      and small: "\<bar>x\<bar> < pow2 1024"
  shows "fl x = Num x"
proof -
  let ?e = "max (ilog2 \<bar>x\<bar> - 52) (- 1074)"
  have "round_half_even (\<bar>x\<bar> / pow2 ?e) = j"
    using j by (simp add: round_half_even_of_int)
  moreover have "of_int j * pow2 ?e = \<bar>x\<bar>"
    using j[symmetric] pow2_pos[of ?e] by simp
  ultimately have "of_int (round_half_even (\<bar>x\<bar> / pow2 ?e)) * pow2 ?e = \<bar>x\<bar>"
    by simp
  moreover have "\<not> 1024 \<le> ilog2 \<bar>x\<bar>"
    using overflow_iff[of "\<bar>x\<bar>"] small by simp
  ultimately show ?thesis
    using nz by (auto simp: fl_def Let_def)
qed

lemma fl_of_int:
  assumes "\<bar>k\<bar> \<le> 2 ^ 53"
  shows "fl (of_int k) = Num (of_int k)"
proof (cases "k = 0")
  case True
  then show ?thesis by (simp add: fl_def)
next
  case False
  define a :: rat where "a = \<bar>of_int k\<bar>"
  define g where "g = ilog2 a"
  have "1 \<le> \<bar>k\<bar>" using False by simp
  then have "(1::rat) \<le> of_int \<bar>k\<bar>" by (simp only: of_int_1_le_iff)
  then have a1: "1 \<le> a" by (simp add: a_def)
  have a53: "a \<le> 2 ^ 53" using assms unfolding a_def
    by (metis of_int_abs of_int_le_iff of_int_numeral of_int_power)
  have apos: "0 < a" using a1 by simp
  from ilog2_bounds[OF apos] have lo: "pow2 g \<le> a" and hi: "a < pow2 (g + 1)"
    by (simp_all add: g_def)
  have g0: "0 \<le> g"
  proof (rule ccontr)
    assume "\<not> 0 \<le> g"
    then have "pow2 (g + 1) \<le> pow2 0" by (intro pow2_mono) simp
    with hi a1 show False by (simp add: pow2_def)
  qed
  have g53: "g \<le> 53"
  proof (rule ccontr)
    assume "\<not> g \<le> 53"
    then have "pow2 54 \<le> pow2 g" by (intro pow2_mono) simp
    with lo a53 show False by (simp add: pow2_def)
  qed
  have ex: "\<exists>j. a / pow2 (max (g - 52) (- 1074)) = of_int j"
  proof (cases "g \<le> 52")
    case True
    then have e: "max (g - 52) (- 1074) = g - 52" "g - 52 \<le> 0" using g0 by simp_all
    have "a / pow2 (g - 52) = of_int (\<bar>k\<bar> * 2 ^ nat (52 - g))"
      using e(2) by (simp add: pow2_neg_exp a_def)
    then show ?thesis using e(1) by metis
  next
    case False
    with g53 have g: "g = 53" by simp
    then have "pow2 53 \<le> a" using lo by simp
    with a53 have "a = 2 ^ 53" by (simp add: pow2_def)
    moreover have "max (g - 52) (- 1074) = 1" using g by simp
    ultimately have "a / pow2 (max (g - 52) (- 1074)) = of_int (2 ^ 52)"
      by (simp add: pow2_def)
    then show ?thesis by metis
  qed
  then obtain j where j: "a / pow2 (max (g - 52) (- 1074)) = of_int j" by blast
  have small: "a < pow2 1024" using a53 pow2_53_less_1024 by simp
  have nz: "(of_int k :: rat) \<noteq> 0" using False by simp
  show ?thesis
    using fl_exact[OF nz] j small unfolding a_def g_def by simp
qed


lemma ceil_fl_div:
  assumes t0: "0 \<le> t" and t53: "t < 2 ^ 53" and l0: "0 < l" and l53: "l \<le> 2 ^ 53"
  shows "js_ceil (fl (of_int t / of_int l)) = Num (of_int \<lceil>(of_int t :: rat) / of_int l\<rceil>)"
proof (cases "l dvd t")
  case True
  then obtain c where c: "t = l * c" by (auto simp: dvd_def)
  have q: "(of_int t :: rat) / of_int l = of_int c" using l0 c by simp
  have "0 \<le> c" using c t0 l0 by (simp add: zero_le_mult_iff)
  moreover have "c \<le> t" using c l0 \<open>0 \<le> c\<close>
    by (metis mult.commute mult_le_cancel_left1 mult_le_cancel_right1 not_le zero_less_one_class.zero_le_one linorder_not_less int_one_le_iff_zero_less mult_left_mono mult.right_neutral)
  ultimately have "\<bar>c\<bar> \<le> 2 ^ 53" using t53 by simp
  then have "fl (of_int c) = Num (of_int c)" by (rule fl_of_int)
  then show ?thesis by (simp add: q js_ceil_def)
next
  case False
  define q :: rat where "q = of_int t / of_int l"
  define k where "k = \<lfloor>q\<rfloor>"
  define g where "g = ilog2 q"
  define e where "e = g - 52"
  have lpos: "(0::rat) < of_int l" using l0 by simp
  have tpos: "0 < t" using False t0 by (cases "t = 0") auto
  have qpos: "0 < q" using tpos lpos by (simp add: q_def)
  have tql: "of_int t = q * of_int l" using lpos by (simp add: q_def)
  have nonint: "q \<noteq> of_int j" for j
  proof
    assume "q = of_int j"
    then have "(of_int t :: rat) = of_int (j * l)" using tql by simp
    then have "t = j * l" by (simp only: of_int_eq_iff)
    then show False using False by simp
  qed
  have "of_int k \<le> q" by (simp add: k_def)
  with nonint[of k] have klt: "of_int k < q" by simp
  have kgt: "q < of_int (k + 1)" using floor_correct[of q] by (simp add: k_def)
  have k0: "0 \<le> k" using qpos by (simp add: k_def)
  have q53: "q < 2 ^ 53"
  proof -
    have "q \<le> of_int t" using l0 t0 tql
      by (metis lpos mult_le_cancel_left1 mult.commute of_int_0_le_iff of_int_1_le_iff
          int_one_le_iff_zero_less qpos less_eq_rat_def mult_le_cancel_right1 order_less_imp_le mult_left_mono mult.right_neutral)
    moreover have "(of_int t :: rat) < 2 ^ 53" using t53
      by (metis of_int_less_iff of_int_numeral of_int_power)
    ultimately show ?thesis by linarith
  qed
  have k53: "k + 1 \<le> 2 ^ 53"
  proof -
    have "(of_int k :: rat) < 2 ^ 53" using klt q53 by linarith
    then have "k < 2 ^ 53" by (metis of_int_less_iff of_int_numeral of_int_power)
    then show ?thesis by simp
  qed
  from ilog2_bounds[OF qpos] have lo: "pow2 g \<le> q" and hi: "q < pow2 (g + 1)"
    by (simp_all add: g_def)
  have qlow: "pow2 (- 53) \<le> q"
  proof -
    have "1 \<le> q * of_int l" using tpos tql
      by (metis of_int_1_le_iff int_one_le_iff_zero_less)
    moreover have "(of_int l :: rat) \<le> 2 ^ 53" using l53
      by (metis of_int_le_iff of_int_numeral of_int_power)
    ultimately have "1 \<le> q * 2 ^ 53" using qpos
      by (smt (verit) mult_left_mono less_eq_rat_def order_trans)
    then show ?thesis by (simp add: pow2_def field_simps)
  qed
  have glow: "- 53 \<le> g"
  proof (rule ccontr)
    assume "\<not> - 53 \<le> g"
    then have "pow2 (g + 1) \<le> pow2 (- 53)" by (intro pow2_mono) simp
    with hi qlow show False by simp
  qed
  have ghigh: "g \<le> 52"
  proof (rule ccontr)
    assume "\<not> g \<le> 52"
    then have "pow2 53 \<le> pow2 g" by (intro pow2_mono) simp
    with lo q53 show False by (simp add: pow2_def)
  qed
  have emax: "max (ilog2 \<bar>q\<bar> - 52) (- 1074) = e"
    using glow qpos by (simp add: e_def g_def)
  have e_le: "e \<le> 0" using ghigh by (simp add: e_def)
  have eneg: "e < 0"
  proof (rule ccontr)
    assume "\<not> e < 0"
    with e_le have "g = 52" by (simp add: e_def)
    then have "2 ^ 52 \<le> q" using lo by (simp add: pow2_def)
    then have "2 ^ 52 * of_int l \<le> (of_int t :: rat)" using tql lpos by simp
    moreover have "(of_int t :: rat) < 2 ^ 53" using t53
      by (metis of_int_less_iff of_int_numeral of_int_power)
    ultimately have "2 ^ 52 * (of_int l :: rat) < 2 ^ 52 * 2" by simp
    then have "(of_int l :: rat) < 2" by (simp only: mult_less_cancel_left_pos zero_less_power zero_less_numeral)
    then have "l < 2" by (metis of_int_less_iff of_int_numeral)
    with l0 have "l = 1" by simp
    with False show False by simp
  qed
  define s :: int where "s = 2 ^ nat (- e)"
  have spos: "0 < s" by (simp add: s_def)
  have pe: "pow2 e = 1 / of_int s" using e_le by (simp add: pow2_neg_exp s_def)
  define m where "m = q * of_int s"
  have mdef: "q / pow2 e = m" by (simp add: pe m_def)
  define n where "n = round_half_even m"
  have m52: "2 ^ 52 \<le> m"
  proof -
    have "pow2 g = pow2 e * pow2 52" using pow2_add[of e 52] by (simp add: e_def)
    then have "pow2 e * 2 ^ 52 \<le> q" using lo by (simp add: pow2_def)
    then show ?thesis using spos by (simp add: pe m_def field_simps)
  qed
  have l2s: "l < 2 * s"
  proof -
    have "m * of_int l = of_int t * of_int s" using tql by (simp add: m_def)
    moreover have "(of_int t :: rat) * of_int s < 2 ^ 53 * of_int s" using t53 spos
      by (metis mult_strict_right_mono of_int_0_less_iff of_int_less_iff of_int_numeral of_int_power)
    ultimately have "m * of_int l < 2 ^ 53 * of_int s" by simp
    moreover have "2 ^ 52 * (of_int l :: rat) \<le> m * of_int l" using m52 lpos by simp
    ultimately have "2 ^ 52 * (of_int l :: rat) < 2 ^ 52 * (2 * of_int s)" by simp
    then have "(of_int l :: rat) < 2 * of_int s"
      by (simp only: mult_less_cancel_left_pos zero_less_power zero_less_numeral)
    then have "(of_int l :: rat) < of_int (2 * s)" by simp
    then show ?thesis by (simp only: of_int_less_iff)
  qed
  have gap: "of_int (k * s) + 1 / 2 < m"
  proof -
    have "of_int (k * l) < (of_int t :: rat)" using klt tql lpos by simp
    then have "k * l < t" by (simp only: of_int_less_iff)
    then have "k * l + 1 \<le> t" by simp
    then have "(of_int (k * l + 1) :: rat) \<le> of_int t" by (simp only: of_int_le_iff)
    then have "of_int k * of_int l + 1 \<le> q * (of_int l :: rat)" using tql by simp
    then have "of_int k + 1 / of_int l \<le> q" using lpos by (simp add: field_simps)
    then have "(of_int k + 1 / of_int l) * of_int s \<le> m" using spos by (simp add: m_def)
    moreover have "1 / 2 < (of_int s :: rat) / of_int l"
    proof -
      have "(of_int l :: rat) < of_int (2 * s)" using l2s by (simp only: of_int_less_iff)
      then show ?thesis using lpos by (simp add: field_simps)
    qed
    moreover have "(of_int k + 1 / of_int l) * of_int s
                     = of_int (k * s) + (of_int s :: rat) / of_int l"
      by (simp add: algebra_simps)
    ultimately show ?thesis by linarith
  qed
  have n_lo: "k * s + 1 \<le> n" unfolding n_def using gap by (rule round_half_even_up)
  have n_hi: "n \<le> (k + 1) * s"
  proof -
    have "m \<le> of_int ((k + 1) * s)" using kgt spos by (simp add: m_def)
    then show ?thesis unfolding n_def by (rule round_half_even_le)
  qed
  define v :: rat where "v = of_int n * pow2 e"
  have v_eq: "v = of_int n / of_int s" by (simp add: v_def pe)
  have v_lo: "of_int k < v"
  proof -
    have "(of_int (k * s + 1) :: rat) \<le> of_int n" using n_lo by (simp only: of_int_le_iff)
    then have "of_int k * of_int s < (of_int n :: rat)" by simp
    then show ?thesis using spos by (simp add: v_eq field_simps)
  qed
  have v_hi: "v \<le> of_int (k + 1)"
  proof -
    have "(of_int n :: rat) \<le> of_int ((k + 1) * s)" using n_hi by (simp only: of_int_le_iff)
    then show ?thesis using spos by (simp add: v_eq field_simps)
  qed
  have cv: "\<lceil>v\<rceil> = k + 1" using v_lo v_hi by (simp add: ceiling_unique)
  have cq: "\<lceil>q\<rceil> = k + 1" using klt kgt by (simp add: ceiling_unique)
  have "v \<le> 2 ^ 53"
  proof -
    have "(of_int (k + 1) :: rat) \<le> 2 ^ 53" using k53
      by (metis of_int_le_iff of_int_numeral of_int_power)
    with v_hi show ?thesis by linarith
  qed
  then have "\<not> pow2 1024 \<le> v" using pow2_53_less_1024 by simp
  moreover have "0 \<le> v" using v_lo k0 by (simp add: order.strict_implies_order order_trans[of 0 "of_int k"])
  ultimately have vsmall: "\<not> 1024 \<le> ilog2 v" using overflow_iff[of v] by simp
  have "fl q = Num v"
    using qpos vsmall emax mdef by (simp add: fl_def Let_def v_def n_def)
  then show ?thesis using cv cq by (simp add: js_ceil_def q_def)
qed

section \<open>Properties of the handlers\<close>

lemma map_of_set_fields:
  "map_of (set_fields kvs d) k = (case map_of (rev kvs) k of None \<Rightarrow> map_of d k | Some v \<Rightarrow> Some v)"
  by (induction kvs d rule: set_fields.induct) (auto simp: update_conv' split: option.splits)

lemma find_first_match:
  "\<forall>x \<in> set pre. \<not> p x \<Longrightarrow> p d \<Longrightarrow> List.find p (pre @ d # post) = Some d"
  by (induction pre) auto

lemma update_first_match:
  "\<forall>x \<in> set pre. \<not> p x \<Longrightarrow> p d \<Longrightarrow> update_first p f (pre @ d # post) = pre @ f d # post"
  by (induction pre) auto

text \<open>
  What \<^verbatim>\<open>POST /user\<close> of the later snapshots does: with a stored record for the
  body's email, the first such record gets a new \<^verbatim>\<open>last_loggedIn\<close> and nothing else
  changes; with none, one record is added.
\<close>

lemma user_post_existing:
  assumes stored: "users w = pre @ d # post"
      and first: "\<forall>x \<in> set pre. \<not> field_eq ''email'' (map_of (body req) ''email'') x"
      and match: "field_eq ''email'' (map_of (body req) ''email'') d"
      and ok1: "store_error e (length (trace w)) = None"
      and ok2: "store_error e (Suc (length (trace w))) = None"
  shows "\<exists>d' w'.
           user_post e req w =
             (Response 200 (BDoc [(''message'', JStr ''User already exists''),
                                  (''inserted'', JBool False)]), w')
         \<and> users w' = pre @ d' # post
         \<and> trace w' = trace w @ [EvStore Users ''findOne'', EvStore Users ''updateOne'']
         \<and> map_of d' ''last_loggedIn'' = Some (JStr (now e (ticks w + 2)))
         \<and> (\<forall>k. k \<noteq> ''last_loggedIn'' \<longrightarrow> map_of d' k = map_of d k)"
proof -
  let ?data = "set_fields [(''role'', JStr ''student''), (''status'', JStr ''not-verified''),
                 (''create_at'', JStr (now e (ticks w))),
                 (''last_loggedIn'', JStr (now e (Suc (ticks w))))] (body req)"
  let ?p = "field_eq ''email'' (map_of (body req) ''email'')"
  let ?sets = "[(''last_loggedIn'', JStr (now e (ticks w + 2)))]"
  have email: "map_of ?data ''email'' = map_of (body req) ''email''"
    by (simp add: update_conv')
  have found: "List.find ?p (users w) = Some d"
    using stored first match find_first_match by simp
  have upd: "update_first ?p (set_fields ?sets) (users w) = pre @ set_fields ?sets d # post"
    using stored first match update_first_match by simp
  have run: "user_post e req w =
          (Response 200 (BDoc [(''message'', JStr ''User already exists''),
                               (''inserted'', JBool False)]),
           w\<lparr>users := pre @ set_fields ?sets d # post,
             trace := trace w @ [EvStore Users ''findOne'', EvStore Users ''updateOne''],
             ticks := ticks w + 3\<rparr>)"
    unfolding user_post_def
    using found upd ok1 ok2 email
    by (simp add: isoNow_def findOne_def updateOne_def store_call_def get_coll_def
          set_coll_def Let_def)
  define d' where "d' = set_fields ?sets d"
  define w' where "w' = w\<lparr>users := pre @ d' # post,
             trace := trace w @ [EvStore Users ''findOne'', EvStore Users ''updateOne''],
             ticks := ticks w + 3\<rparr>"
  have fields: "map_of d' k =
                  (if k = ''last_loggedIn'' then Some (JStr (now e (ticks w + 2)))
                   else map_of d k)" for k
    by (simp add: d'_def update_conv')
  have "user_post e req w =
          (Response 200 (BDoc [(''message'', JStr ''User already exists''),
                               (''inserted'', JBool False)]), w')"
    using run by (simp add: w'_def d'_def)
  moreover have "users w' = pre @ d' # post"
    "trace w' = trace w @ [EvStore Users ''findOne'', EvStore Users ''updateOne'']"
    by (simp_all add: w'_def)
  moreover have "map_of d' ''last_loggedIn'' = Some (JStr (now e (ticks w + 2)))"
    "\<forall>k. k \<noteq> ''last_loggedIn'' \<longrightarrow> map_of d' k = map_of d k"
    by (simp_all add: fields)
  ultimately show ?thesis
    by (intro exI[of _ d'] exI[of _ w']) simp
qed

lemma find_no_match: "\<forall>x \<in> set xs. \<not> p x \<Longrightarrow> List.find p xs = None"
  by (induction xs) auto

lemma id_len_le_max: "x \<in> set ds \<Longrightarrow> id_len x \<le> foldr max (map id_len ds) 0"
  by (induction ds) auto

lemma fresh_id_new: "Some (fresh_id ds) \<notin> set (map (\<lambda>x. map_of x ''_id'') ds)"
proof
  assume "Some (fresh_id ds) \<in> set (map (\<lambda>x. map_of x ''_id'') ds)"
  then obtain x where x: "x \<in> set ds" "map_of x ''_id'' = Some (fresh_id ds)" by auto
  then have "id_len x = Suc (foldr max (map id_len ds) 0)"
    by (simp add: id_len_def fresh_id_def)
  with id_len_le_max[OF x(1)] show False by simp
qed

lemma insertOne_new:
  assumes ok: "store_error e (length (trace w)) = None"
      and new: "\<forall>v. map_of d ''_id'' = Some v \<longrightarrow>
                  v = JNull \<or> Some v \<notin> set (map (\<lambda>x. map_of x ''_id'') (get_coll c w))"
  shows "\<exists>d' oid.
           insertOne e c d w =
             Ok [(''acknowledged'', JBool True), (''insertedId'', oid)]
                (set_coll c (get_coll c w @ [d']) (w\<lparr>trace := trace w @ [EvStore c ''insertOne'']\<rparr>))
         \<and> map_of d' ''_id'' = Some oid
         \<and> Some oid \<notin> set (map (\<lambda>x. map_of x ''_id'') (get_coll c w))
         \<and> (\<forall>k. k \<noteq> ''_id'' \<longrightarrow> map_of d' k = map_of d k)"
proof -
  let ?w1 = "w\<lparr>trace := trace w @ [EvStore c ''insertOne'']\<rparr>"
  let ?f = "fresh_id (get_coll c w)"
  have coll: "get_coll c ?w1 = get_coll c w"
    by (cases c) (simp_all add: get_coll_def)
  consider (none) "map_of d ''_id'' = None" | (null) "map_of d ''_id'' = Some JNull"
    | (given) v where "map_of d ''_id'' = Some v" "v \<noteq> JNull"
    by (cases "map_of d ''_id''") auto
  then show ?thesis
  proof cases
    case none
    then have "insertOne e c d w =
                 Ok [(''acknowledged'', JBool True), (''insertedId'', ?f)]
                    (set_coll c (get_coll c w @ [(''_id'', ?f) # d]) ?w1)"
      using ok by (simp add: insertOne_def store_call_def coll Let_def)
    moreover have "map_of ((''_id'', ?f) # d) ''_id'' = Some ?f" by simp
    moreover have "\<forall>k. k \<noteq> ''_id'' \<longrightarrow> map_of ((''_id'', ?f) # d) k = map_of d k" by simp
    ultimately show ?thesis
      using fresh_id_new[of "get_coll c w"]
      by (intro exI[of _ "(''_id'', ?f) # d"] exI[of _ ?f]) simp
  next
    case null
    then have "insertOne e c d w =
                 Ok [(''acknowledged'', JBool True), (''insertedId'', ?f)]
                    (set_coll c (get_coll c w @ [AList.update ''_id'' ?f d]) ?w1)"
      using ok by (simp add: insertOne_def store_call_def coll Let_def)
    moreover have "map_of (AList.update ''_id'' ?f d) ''_id'' = Some ?f"
      by (simp add: update_conv')
    moreover have "\<forall>k. k \<noteq> ''_id'' \<longrightarrow> map_of (AList.update ''_id'' ?f d) k = map_of d k"
      by (simp add: update_conv')
    ultimately show ?thesis
      using fresh_id_new[of "get_coll c w"]
      by (intro exI[of _ "AList.update ''_id'' ?f d"] exI[of _ ?f]) simp
  next
    case given
    from new given have fresh: "Some v \<notin> set (map (\<lambda>x. map_of x ''_id'') (get_coll c w))"
      by simp
    have "insertOne e c d w =
            Ok [(''acknowledged'', JBool True), (''insertedId'', v)]
               (set_coll c (get_coll c w @ [d]) ?w1)"
      using ok given fresh
      by (cases v) (simp_all add: insertOne_def store_call_def coll Let_def)
    then show ?thesis
      using given(1) fresh by (intro exI[of _ d] exI[of _ v]) simp
  qed
qed

lemma insertOne_duplicate:
  assumes ok: "store_error e (length (trace w)) = None"
      and given: "map_of d ''_id'' = Some v" "v \<noteq> JNull"
      and dup: "Some v \<in> set (map (\<lambda>x. map_of x ''_id'') (get_coll c w))"
  shows "insertOne e c d w =
           Throw (StoreError ''E11000 duplicate key error'')
                 (w\<lparr>trace := trace w @ [EvStore c ''insertOne'']\<rparr>)"
proof -
  have coll: "get_coll c (w\<lparr>trace := trace w @ [EvStore c ''insertOne'']\<rparr>) = get_coll c w"
    by (cases c) (simp_all add: get_coll_def)
  show ?thesis
    using ok given dup
    by (cases v) (simp_all add: insertOne_def store_call_def coll Let_def)
qed


lemma user_post_new:
  assumes none: "\<forall>x \<in> set (users w). \<not> field_eq ''email'' (map_of (body req) ''email'') x"
      and newid: "\<forall>v. map_of (body req) ''_id'' = Some v \<longrightarrow>
                    v = JNull \<or> Some v \<notin> set (map (\<lambda>x. map_of x ''_id'') (users w))"
      and ok1: "store_error e (length (trace w)) = None"
      and ok2: "store_error e (Suc (length (trace w))) = None"
  shows "\<exists>d' oid w'.
           user_post e req w =
             (Response 200 (BDoc [(''acknowledged'', JBool True), (''insertedId'', oid)]), w')
         \<and> users w' = users w @ [d']
         \<and> trace w' = trace w @ [EvStore Users ''findOne'', EvStore Users ''insertOne'']
         \<and> map_of d' ''_id'' = Some oid
         \<and> Some oid \<notin> set (map (\<lambda>x. map_of x ''_id'') (users w))
         \<and> map_of d' ''role'' = Some (JStr ''student'')
         \<and> map_of d' ''status'' = Some (JStr ''not-verified'')
         \<and> map_of d' ''create_at'' = Some (JStr (now e (ticks w)))
         \<and> map_of d' ''last_loggedIn'' = Some (JStr (now e (Suc (ticks w))))
         \<and> map_of d' ''email'' = map_of (body req) ''email''"
proof -
  let ?data = "set_fields [(''role'', JStr ''student''), (''status'', JStr ''not-verified''),
                 (''create_at'', JStr (now e (ticks w))),
                 (''last_loggedIn'', JStr (now e (Suc (ticks w))))] (body req)"
  let ?p = "field_eq ''email'' (map_of (body req) ''email'')"
  let ?w3 = "w\<lparr>ticks := Suc (Suc (ticks w)), trace := trace w @ [EvStore Users ''findOne'']\<rparr>"
  have email: "map_of ?data ''email'' = map_of (body req) ''email''"
    by (simp add: update_conv')
  have id: "map_of ?data ''_id'' = map_of (body req) ''_id''"
    by (simp add: update_conv')
  have found: "List.find ?p (users w) = None"
    using none find_no_match by blast
  have step: "user_post e req w =
          (case insertOne e Users ?data ?w3 of
             Throw x w4 \<Rightarrow> (Response 500 (BDoc [(''error'', JStr (error_message x))]), w4)
           | Ok result w4 \<Rightarrow> (Response 200 (BDoc result), w4))"
    unfolding user_post_def
    using found ok1 email
    by (simp add: isoNow_def findOne_def store_call_def get_coll_def Let_def)
  have ok3: "store_error e (length (trace ?w3)) = None"
    using ok2 by simp
  have new3: "\<forall>v. map_of ?data ''_id'' = Some v \<longrightarrow>
                v = JNull \<or> Some v \<notin> set (map (\<lambda>x. map_of x ''_id'') (get_coll Users ?w3))"
    using newid unfolding id by (simp add: get_coll_def)
  from insertOne_new[OF ok3 new3] obtain d' oid where ins:
    "insertOne e Users ?data ?w3 =
       Ok [(''acknowledged'', JBool True), (''insertedId'', oid)]
          (set_coll Users (get_coll Users ?w3 @ [d'])
             (?w3\<lparr>trace := trace ?w3 @ [EvStore Users ''insertOne'']\<rparr>))"
    "map_of d' ''_id'' = Some oid"
    "Some oid \<notin> set (map (\<lambda>x. map_of x ''_id'') (get_coll Users ?w3))"
    "\<forall>k. k \<noteq> ''_id'' \<longrightarrow> map_of d' k = map_of ?data k"
    by (elim exE conjE)
  define w' where "w' = set_coll Users (get_coll Users ?w3 @ [d'])
             (?w3\<lparr>trace := trace ?w3 @ [EvStore Users ''insertOne'']\<rparr>)"
  have "user_post e req w =
          (Response 200 (BDoc [(''acknowledged'', JBool True), (''insertedId'', oid)]), w')"
    unfolding step ins(1) w'_def by simp
  moreover have "users w' = users w @ [d']"
    "trace w' = trace w @ [EvStore Users ''findOne'', EvStore Users ''insertOne'']"
    by (simp_all add: w'_def set_coll_def get_coll_def)
  moreover have "Some oid \<notin> set (map (\<lambda>x. map_of x ''_id'') (users w))"
    using ins(3) by (simp add: get_coll_def)
  moreover have "map_of d' ''role'' = Some (JStr ''student'')"
    "map_of d' ''status'' = Some (JStr ''not-verified'')"
    "map_of d' ''create_at'' = Some (JStr (now e (ticks w)))"
    "map_of d' ''last_loggedIn'' = Some (JStr (now e (Suc (ticks w))))"
    "map_of d' ''email'' = map_of (body req) ''email''"
    using ins(4) by (simp_all add: update_conv')
  ultimately show ?thesis
    using ins(2) by (intro exI[of _ d'] exI[of _ oid] exI[of _ w']) simp
qed

lemma user_post_part_000_new:
  assumes none: "\<forall>x \<in> set (users w). \<not> field_eq ''email'' (map_of (body req) ''email'') x"
      and newid: "\<forall>v. map_of (body req) ''_id'' = Some v \<longrightarrow>
                    v = JNull \<or> Some v \<notin> set (map (\<lambda>x. map_of x ''_id'') (users w))"
      and ok1: "store_error e (length (trace w)) = None"
      and ok2: "store_error e (Suc (length (trace w))) = None"
  shows "\<exists>d' oid w'.
           user_post_part_000 e req w =
             (Response 200 (BDoc [(''acknowledged'', JBool True), (''insertedId'', oid)]), w')
         \<and> users w' = users w @ [d']
         \<and> trace w' = trace w @ [EvStore Users ''findOne'', EvStore Users ''insertOne'']
         \<and> map_of d' ''_id'' = Some oid
         \<and> Some oid \<notin> set (map (\<lambda>x. map_of x ''_id'') (users w))
         \<and> map_of d' ''role'' = Some (JStr ''student'')
         \<and> map_of d' ''status'' = map_of (body req) ''status''
         \<and> map_of d' ''create_at'' = Some (JStr (now e (ticks w)))
         \<and> map_of d' ''last_loggedIn'' = Some (JStr (now e (Suc (ticks w))))
         \<and> map_of d' ''email'' = map_of (body req) ''email''"
proof -
  let ?data = "set_fields [(''role'', JStr ''student''),
                 (''create_at'', JStr (now e (ticks w))),
                 (''last_loggedIn'', JStr (now e (Suc (ticks w))))] (body req)"
  let ?p = "field_eq ''email'' (map_of (body req) ''email'')"
  let ?w3 = "w\<lparr>ticks := Suc (Suc (ticks w)), trace := trace w @ [EvStore Users ''findOne'']\<rparr>"
  have email: "map_of ?data ''email'' = map_of (body req) ''email''"
    by (simp add: update_conv')
  have id: "map_of ?data ''_id'' = map_of (body req) ''_id''"
    by (simp add: update_conv')
  have found: "List.find ?p (users w) = None"
    using none find_no_match by blast
  have step: "user_post_part_000 e req w =
          (case insertOne e Users ?data ?w3 of
             Throw x w4 \<Rightarrow> (Response 500 (BDoc [(''error'', JStr (error_message x))]), w4)
           | Ok result w4 \<Rightarrow> (Response 200 (BDoc result), w4))"
    unfolding user_post_part_000_def
    using found ok1 email
    by (simp add: isoNow_def findOne_def store_call_def get_coll_def Let_def)
  have ok3: "store_error e (length (trace ?w3)) = None"
    using ok2 by simp
  have new3: "\<forall>v. map_of ?data ''_id'' = Some v \<longrightarrow>
                v = JNull \<or> Some v \<notin> set (map (\<lambda>x. map_of x ''_id'') (get_coll Users ?w3))"
    using newid unfolding id by (simp add: get_coll_def)
  from insertOne_new[OF ok3 new3] obtain d' oid where ins:
    "insertOne e Users ?data ?w3 =
       Ok [(''acknowledged'', JBool True), (''insertedId'', oid)]
          (set_coll Users (get_coll Users ?w3 @ [d'])
             (?w3\<lparr>trace := trace ?w3 @ [EvStore Users ''insertOne'']\<rparr>))"
    "map_of d' ''_id'' = Some oid"
    "Some oid \<notin> set (map (\<lambda>x. map_of x ''_id'') (get_coll Users ?w3))"
    "\<forall>k. k \<noteq> ''_id'' \<longrightarrow> map_of d' k = map_of ?data k"
    by (elim exE conjE)
  define w' where "w' = set_coll Users (get_coll Users ?w3 @ [d'])
             (?w3\<lparr>trace := trace ?w3 @ [EvStore Users ''insertOne'']\<rparr>)"
  have "user_post_part_000 e req w =
          (Response 200 (BDoc [(''acknowledged'', JBool True), (''insertedId'', oid)]), w')"
    unfolding step ins(1) w'_def by simp
  moreover have "users w' = users w @ [d']"
    "trace w' = trace w @ [EvStore Users ''findOne'', EvStore Users ''insertOne'']"
    by (simp_all add: w'_def set_coll_def get_coll_def)
  moreover have "Some oid \<notin> set (map (\<lambda>x. map_of x ''_id'') (users w))"
    using ins(3) by (simp add: get_coll_def)
  moreover have "map_of d' ''role'' = Some (JStr ''student'')"
    "map_of d' ''status'' = map_of (body req) ''status''"
    "map_of d' ''create_at'' = Some (JStr (now e (ticks w)))"
    "map_of d' ''last_loggedIn'' = Some (JStr (now e (Suc (ticks w))))"
    "map_of d' ''email'' = map_of (body req) ''email''"
    using ins(4) by (simp_all add: update_conv')
  ultimately show ?thesis
    using ins(2) by (intro exI[of _ d'] exI[of _ oid] exI[of _ w']) simp
qed

text \<open>
  A body that brings the \<^verbatim>\<open>_id\<close> of a stored user, with an email that no stored user
  has: the store refuses the insert, the answer is 500 with the store's message, and
  the collection is as before.
\<close>

lemma user_post_duplicate_id:
  assumes none: "\<forall>x \<in> set (users w). \<not> field_eq ''email'' (map_of (body req) ''email'') x"
      and given: "map_of (body req) ''_id'' = Some v" "v \<noteq> JNull"
      and dup: "Some v \<in> set (map (\<lambda>x. map_of x ''_id'') (users w))"
      and ok1: "store_error e (length (trace w)) = None"
      and ok2: "store_error e (Suc (length (trace w))) = None"
  shows "\<exists>w'. user_post e req w =
                (Response 500 (BDoc [(''error'', JStr ''E11000 duplicate key error'')]), w')
              \<and> users w' = users w"
proof -
  let ?data = "set_fields [(''role'', JStr ''student''), (''status'', JStr ''not-verified''),
                 (''create_at'', JStr (now e (ticks w))),
                 (''last_loggedIn'', JStr (now e (Suc (ticks w))))] (body req)"
  let ?p = "field_eq ''email'' (map_of (body req) ''email'')"
  let ?w3 = "w\<lparr>ticks := Suc (Suc (ticks w)), trace := trace w @ [EvStore Users ''findOne'']\<rparr>"
  have email: "map_of ?data ''email'' = map_of (body req) ''email''"
    by (simp add: update_conv')
  have id: "map_of ?data ''_id'' = Some v"
    using given(1) by (simp add: update_conv')
  have found: "List.find ?p (users w) = None"
    using none find_no_match by blast
  have step: "user_post e req w =
          (case insertOne e Users ?data ?w3 of
             Throw x w4 \<Rightarrow> (Response 500 (BDoc [(''error'', JStr (error_message x))]), w4)
           | Ok result w4 \<Rightarrow> (Response 200 (BDoc result), w4))"
    unfolding user_post_def
    using found ok1 email
    by (simp add: isoNow_def findOne_def store_call_def get_coll_def Let_def)
  have ok3: "store_error e (length (trace ?w3)) = None"
    using ok2 by simp
  have dup3: "Some v \<in> set (map (\<lambda>x. map_of x ''_id'') (get_coll Users ?w3))"
    using dup by (simp add: get_coll_def)
  show ?thesis
    unfolding step insertOne_duplicate[OF ok3 id given(2) dup3]
    by (simp add: error_message_def)
qed

lemma field_eq_cong: "map_of d' k = map_of d k \<Longrightarrow> field_eq k v d' = field_eq k v d"
  by (simp add: field_eq_def)

text \<open>
  C4, as the code has it. \<^verbatim>\<open>POST /user\<close> with both store calls succeeding. When no
  stored user matches the body's email, and the body's \<^verbatim>\<open>_id\<close> is missing, \<^verbatim>\<open>null\<close> or
  not the \<^verbatim>\<open>_id\<close> of a stored user, one record is added at the end of the collection,
  with an \<^verbatim>\<open>_id\<close> that no stored user has, role \<^verbatim>\<open>student\<close>, the two clock readings as
  \<^verbatim>\<open>create_at\<close> and \<^verbatim>\<open>last_loggedIn\<close> and the body's email, in the first snapshot as in
  the later ones; the later ones also set status \<^verbatim>\<open>not-verified\<close>. In the later
  snapshots, when a stored user matches, the answer is 200 with the message that the user
  exists, the store calls are one lookup and one update, the collection holds as many
  records for that email as before, and the first matching record has a new
  \<^verbatim>\<open>last_loggedIn\<close> and every other field as before.
\<close>

theorem C4_user_post_upsert:
  assumes ok1: "store_error e (length (trace w)) = None"
      and ok2: "store_error e (Suc (length (trace w))) = None"
      and email: "p = field_eq ''email'' (map_of (body req) ''email'')"
  shows "((\<forall>x \<in> set (users w). \<not> p x)
          \<and> (\<forall>v. map_of (body req) ''_id'' = Some v \<longrightarrow>
                 v = JNull \<or> Some v \<notin> set (map (\<lambda>x. map_of x ''_id'') (users w))) \<longrightarrow>
            (\<exists>d' oid w'.
               user_post e req w =
                 (Response 200 (BDoc [(''acknowledged'', JBool True), (''insertedId'', oid)]), w')
             \<and> users w' = users w @ [d']
             \<and> map_of d' ''_id'' = Some oid
             \<and> Some oid \<notin> set (map (\<lambda>x. map_of x ''_id'') (users w))
             \<and> map_of d' ''role'' = Some (JStr ''student'')
             \<and> map_of d' ''status'' = Some (JStr ''not-verified'')
             \<and> map_of d' ''create_at'' = Some (JStr (now e (ticks w)))
             \<and> map_of d' ''last_loggedIn'' = Some (JStr (now e (Suc (ticks w))))
             \<and> map_of d' ''email'' = map_of (body req) ''email'')
          \<and> (\<exists>d' oid w'.
               user_post_part_000 e req w =
                 (Response 200 (BDoc [(''acknowledged'', JBool True), (''insertedId'', oid)]), w')
             \<and> users w' = users w @ [d']
             \<and> map_of d' ''_id'' = Some oid
             \<and> Some oid \<notin> set (map (\<lambda>x. map_of x ''_id'') (users w))
             \<and> map_of d' ''role'' = Some (JStr ''student'')
             \<and> map_of d' ''create_at'' = Some (JStr (now e (ticks w)))
             \<and> map_of d' ''last_loggedIn'' = Some (JStr (now e (Suc (ticks w))))
             \<and> map_of d' ''email'' = map_of (body req) ''email''))
       \<and> (\<forall>pre d post. users w = pre @ d # post \<and> (\<forall>x \<in> set pre. \<not> p x) \<and> p d \<longrightarrow>
            (\<exists>d' w'.
               user_post e req w =
                 (Response 200 (BDoc [(''message'', JStr ''User already exists''),
                                      (''inserted'', JBool False)]), w')
             \<and> users w' = pre @ d' # post
             \<and> trace w' = trace w @ [EvStore Users ''findOne'', EvStore Users ''updateOne'']
             \<and> length (filter p (users w')) = length (filter p (users w))
             \<and> map_of d' ''last_loggedIn'' = Some (JStr (now e (ticks w + 2)))
             \<and> (\<forall>k. k \<noteq> ''last_loggedIn'' \<longrightarrow> map_of d' k = map_of d k)))"
proof (intro conjI impI allI)
  assume a: "(\<forall>x \<in> set (users w). \<not> p x)
          \<and> (\<forall>v. map_of (body req) ''_id'' = Some v \<longrightarrow>
                 v = JNull \<or> Some v \<notin> set (map (\<lambda>x. map_of x ''_id'') (users w)))"
  then have none: "\<forall>x \<in> set (users w). \<not> field_eq ''email'' (map_of (body req) ''email'') x"
    and newid: "\<forall>v. map_of (body req) ''_id'' = Some v \<longrightarrow>
                 v = JNull \<or> Some v \<notin> set (map (\<lambda>x. map_of x ''_id'') (users w))"
    unfolding email by simp_all
  from user_post_new[OF none newid ok1 ok2]
  show "\<exists>d' oid w'.
               user_post e req w =
                 (Response 200 (BDoc [(''acknowledged'', JBool True), (''insertedId'', oid)]), w')
             \<and> users w' = users w @ [d']
             \<and> map_of d' ''_id'' = Some oid
             \<and> Some oid \<notin> set (map (\<lambda>x. map_of x ''_id'') (users w))
             \<and> map_of d' ''role'' = Some (JStr ''student'')
             \<and> map_of d' ''status'' = Some (JStr ''not-verified'')
             \<and> map_of d' ''create_at'' = Some (JStr (now e (ticks w)))
             \<and> map_of d' ''last_loggedIn'' = Some (JStr (now e (Suc (ticks w))))
             \<and> map_of d' ''email'' = map_of (body req) ''email''"
    by (elim exE conjE) (rule exI, rule exI, rule exI, intro conjI, assumption+)
  from user_post_part_000_new[OF none newid ok1 ok2]
  show "\<exists>d' oid w'.
               user_post_part_000 e req w =
                 (Response 200 (BDoc [(''acknowledged'', JBool True), (''insertedId'', oid)]), w')
             \<and> users w' = users w @ [d']
             \<and> map_of d' ''_id'' = Some oid
             \<and> Some oid \<notin> set (map (\<lambda>x. map_of x ''_id'') (users w))
             \<and> map_of d' ''role'' = Some (JStr ''student'')
             \<and> map_of d' ''create_at'' = Some (JStr (now e (ticks w)))
             \<and> map_of d' ''last_loggedIn'' = Some (JStr (now e (Suc (ticks w))))
             \<and> map_of d' ''email'' = map_of (body req) ''email''"
    by (elim exE conjE) (rule exI, rule exI, rule exI, intro conjI, assumption+)
next
  fix pre d post
  assume a: "users w = pre @ d # post \<and> (\<forall>x \<in> set pre. \<not> p x) \<and> p d"
  then have stored: "users w = pre @ d # post"
    and first: "\<forall>x \<in> set pre. \<not> field_eq ''email'' (map_of (body req) ''email'') x"
    and match: "field_eq ''email'' (map_of (body req) ''email'') d"
    using email by auto
  from user_post_existing[OF stored first match ok1 ok2]
  obtain d' w' where r:
    "user_post e req w =
       (Response 200 (BDoc [(''message'', JStr ''User already exists''),
                            (''inserted'', JBool False)]), w')"
    "users w' = pre @ d' # post"
    "trace w' = trace w @ [EvStore Users ''findOne'', EvStore Users ''updateOne'']"
    "map_of d' ''last_loggedIn'' = Some (JStr (now e (ticks w + 2)))"
    "\<forall>k. k \<noteq> ''last_loggedIn'' \<longrightarrow> map_of d' k = map_of d k"
    by blast
  from r(5) have "map_of d' ''email'' = map_of d ''email''" by simp
  then have "field_eq ''email'' v d' = field_eq ''email'' v d" for v
    by (rule field_eq_cong)
  then have "p d' = p d" by (simp add: email)
  then have "length (filter p (users w')) = length (filter p (users w))"
    using r(2) stored by simp
  with r show "\<exists>d' w'.
               user_post e req w =
                 (Response 200 (BDoc [(''message'', JStr ''User already exists''),
                                      (''inserted'', JBool False)]), w')
             \<and> users w' = pre @ d' # post
             \<and> trace w' = trace w @ [EvStore Users ''findOne'', EvStore Users ''updateOne'']
             \<and> length (filter p (users w')) = length (filter p (users w))
             \<and> map_of d' ''last_loggedIn'' = Some (JStr (now e (ticks w + 2)))
             \<and> (\<forall>k. k \<noteq> ''last_loggedIn'' \<longrightarrow> map_of d' k = map_of d k)"
    by (intro exI[of _ d'] exI[of _ w']) simp
qed

theorem C4_user_post_upsert_witness:
  "store_error env0 (length (trace one_user)) = None
   \<and> store_error env0 (Suc (length (trace one_user))) = None
   \<and> filter (field_eq ''email'' (map_of (body sign_up_with_id) ''email'')) (users one_user) = []
   \<and> map_of (body sign_up_with_id) ''_id'' = Some (JStr ''mine'')
   \<and> map (\<lambda>x. map_of x ''_id'') (users one_user) = [Some (JOid ''u2'')]
   \<and> (\<exists>d' oid w'.
         user_post env0 sign_up_with_id one_user =
           (Response 200 (BDoc [(''acknowledged'', JBool True), (''insertedId'', oid)]), w')
       \<and> users w' = users one_user @ [d']
       \<and> map_of d' ''_id'' = Some oid
       \<and> map_of d' ''role'' = Some (JStr ''student'')
       \<and> map_of d' ''status'' = Some (JStr ''not-verified'')
       \<and> map_of d' ''create_at'' = Some (JStr (now env0 (ticks one_user)))
       \<and> map_of d' ''last_loggedIn'' = Some (JStr (now env0 (Suc (ticks one_user))))
       \<and> map_of d' ''email'' = map_of (body sign_up_with_id) ''email'')
   \<and> users one_user = [] @ student_user # []
   \<and> field_eq ''email'' (map_of (body sign_in) ''email'') student_user
   \<and> (\<exists>d' w'.
         user_post env0 sign_in one_user =
           (Response 200 (BDoc [(''message'', JStr ''User already exists''),
                                (''inserted'', JBool False)]), w')
       \<and> users w' = [d']
       \<and> trace w' = trace one_user @ [EvStore Users ''findOne'', EvStore Users ''updateOne'']
       \<and> length (filter (field_eq ''email'' (map_of (body sign_in) ''email'')) (users w')) = 1
       \<and> map_of d' ''last_loggedIn'' = Some (JStr (now env0 (ticks one_user + 2)))
       \<and> map_of d' ''role'' = map_of student_user ''role''
       \<and> map_of d' ''create_at'' = map_of student_user ''create_at'')"
proof -
  let ?p = "field_eq ''email'' (map_of (body sign_in) ''email'')"
  let ?q = "field_eq ''email'' (map_of (body sign_up_with_id) ''email'')"
  have b1: "store_error env0 (length (trace one_user)) = None" by (simp add: env0_def)
  have b2: "store_error env0 (Suc (length (trace one_user))) = None" by (simp add: env0_def)
  have empty: "filter ?q (users one_user) = []" by code_simp
  then have none: "\<forall>x \<in> set (users one_user). \<not> ?q x" by (simp add: filter_empty_conv)
  have bid: "map_of (body sign_up_with_id) ''_id'' = Some (JStr ''mine'')" by code_simp
  have ids: "map (\<lambda>x. map_of x ''_id'') (users one_user) = [Some (JOid ''u2'')]" by code_simp
  have newid: "\<forall>v. map_of (body sign_up_with_id) ''_id'' = Some v \<longrightarrow>
                 v = JNull \<or> Some v \<notin> set (map (\<lambda>x. map_of x ''_id'') (users one_user))"
    unfolding bid ids by simp
  have stored: "users one_user = [] @ student_user # []" by (simp add: one_user_def)
  have first: "\<forall>x \<in> set []. \<not> ?p x" by simp
  have match: "?p student_user" by code_simp
  have one: "length (filter ?p (users one_user)) = 1" by code_simp
  note new = C4_user_post_upsert[OF b1 b2 refl, of sign_up_with_id, THEN conjunct1, rule_format,
               OF conjI[OF none newid], THEN conjunct1]
  note old = C4_user_post_upsert[OF b1 b2 refl, of sign_in, THEN conjunct2, rule_format,
               OF conjI[OF stored conjI[OF first match]]]
  from new obtain e' oid v' where n:
    "user_post env0 sign_up_with_id one_user =
       (Response 200 (BDoc [(''acknowledged'', JBool True), (''insertedId'', oid)]), v')"
    "users v' = users one_user @ [e']"
    "map_of e' ''_id'' = Some oid"
    "map_of e' ''role'' = Some (JStr ''student'')"
    "map_of e' ''status'' = Some (JStr ''not-verified'')"
    "map_of e' ''create_at'' = Some (JStr (now env0 (ticks one_user)))"
    "map_of e' ''last_loggedIn'' = Some (JStr (now env0 (Suc (ticks one_user))))"
    "map_of e' ''email'' = map_of (body sign_up_with_id) ''email''"
    by (elim exE conjE)
  have exn: "\<exists>d' oid w'.
         user_post env0 sign_up_with_id one_user =
           (Response 200 (BDoc [(''acknowledged'', JBool True), (''insertedId'', oid)]), w')
       \<and> users w' = users one_user @ [d']
       \<and> map_of d' ''_id'' = Some oid
       \<and> map_of d' ''role'' = Some (JStr ''student'')
       \<and> map_of d' ''status'' = Some (JStr ''not-verified'')
       \<and> map_of d' ''create_at'' = Some (JStr (now env0 (ticks one_user)))
       \<and> map_of d' ''last_loggedIn'' = Some (JStr (now env0 (Suc (ticks one_user))))
       \<and> map_of d' ''email'' = map_of (body sign_up_with_id) ''email''"
    using n by (intro exI[of _ e'] exI[of _ oid] exI[of _ v'] conjI)
  from old obtain d' w' where r:
    "user_post env0 sign_in one_user =
       (Response 200 (BDoc [(''message'', JStr ''User already exists''),
                            (''inserted'', JBool False)]), w')"
    "users w' = [] @ d' # []"
    "trace w' = trace one_user @ [EvStore Users ''findOne'', EvStore Users ''updateOne'']"
    "length (filter ?p (users w')) = length (filter ?p (users one_user))"
    "map_of d' ''last_loggedIn'' = Some (JStr (now env0 (ticks one_user + 2)))"
    "\<forall>k. k \<noteq> ''last_loggedIn'' \<longrightarrow> map_of d' k = map_of student_user k"
    by (elim exE conjE)
  from r(6) have keep: "map_of d' ''role'' = map_of student_user ''role''"
    "map_of d' ''create_at'' = map_of student_user ''create_at''"
    by simp_all
  from r(2) have us: "users w' = [d']" by simp
  from r(4) one have cnt: "length (filter ?p (users w')) = 1" by simp
  have ex: "\<exists>d' w'.
         user_post env0 sign_in one_user =
           (Response 200 (BDoc [(''message'', JStr ''User already exists''),
                                (''inserted'', JBool False)]), w')
       \<and> users w' = [d']
       \<and> trace w' = trace one_user @ [EvStore Users ''findOne'', EvStore Users ''updateOne'']
       \<and> length (filter ?p (users w')) = 1
       \<and> map_of d' ''last_loggedIn'' = Some (JStr (now env0 (ticks one_user + 2)))
       \<and> map_of d' ''role'' = map_of student_user ''role''
       \<and> map_of d' ''create_at'' = map_of student_user ''create_at''"
    using r(1) us r(3) cnt r(5) keep
    by (intro exI[of _ d'] exI[of _ w'] conjI)
  from b1 b2 empty bid ids exn stored match ex show ?thesis by (intro conjI)
qed

text \<open>
  The first snapshot (src/unnamed/part_000) sets no status on the record it inserts,
  and nothing returns after its update: posting an email that has a stored record
  refreshes that record's \<^verbatim>\<open>last_loggedIn\<close> and then inserts a second record with the
  same email, the answer being the insert's acknowledgement.
\<close>

theorem C4_part_000_counterexample:
  "user_post_part_000 env0 sign_in world0
     = (Response 200 (BDoc [(''acknowledged'', JBool True), (''insertedId'', JOid ''0'')]),
        world0\<lparr>users := [[(''_id'', JOid ''0''), (''email'', JStr ''a@x.com''),
                           (''role'', JStr ''student''), (''create_at'', JStr ''t''),
                           (''last_loggedIn'', JStr ''t+'')]],
               trace := [EvStore Users ''findOne'', EvStore Users ''insertOne''],
               ticks := 2\<rparr>)
   \<and> user_post_part_000 env0 sign_in
       (world0\<lparr>users := [[(''_id'', JOid ''u2''), (''email'', JStr ''a@x.com''),
                           (''role'', JStr ''student''), (''create_at'', JStr ''t0''),
                           (''last_loggedIn'', JStr ''t0'')]]\<rparr>)
     = (Response 200 (BDoc [(''acknowledged'', JBool True), (''insertedId'', JOid ''000'')]),
        world0\<lparr>users := [[(''_id'', JOid ''u2''), (''email'', JStr ''a@x.com''),
                           (''role'', JStr ''student''), (''create_at'', JStr ''t0''),
                           (''last_loggedIn'', JStr ''t++'')],
                          [(''_id'', JOid ''000''), (''email'', JStr ''a@x.com''),
                           (''role'', JStr ''student''), (''create_at'', JStr ''t''),
                           (''last_loggedIn'', JStr ''t+'')]],
               trace := [EvStore Users ''findOne'', EvStore Users ''updateOne'',
                         EvStore Users ''insertOne''],
               ticks := 3\<rparr>)"
  by code_simp

lemma or_6_absent: "or_6 (parseInt None) = Num 6"
  by code_simp

lemma js_mul_int:
  assumes "\<bar>p * l\<bar> \<le> 2 ^ 53"
  shows "js_mul (Num (of_int p)) (Num (of_int l)) = Num (of_int (p * l))"
  using fl_of_int[OF assms] by (simp add: js_mul_def)

lemma cursor_range_page:
  assumes "0 \<le> k" "k \<le> 2 ^ 53" "0 < l" "l \<le> 2 ^ 53"
  shows "cursor_range e (Num (of_int k)) (Num (of_int l)) = Inr (nat k, Some (nat l))"
proof -
  have k: "(of_int k :: rat) \<le> 2 ^ 53" "\<bar>of_int k :: rat\<bar> \<le> 2 ^ 53"
    using assms(1,2) by (simp_all add: of_int_le_numeral_power_cancel_iff)
  have l: "(of_int l :: rat) \<le> 2 ^ 53"
    using assms(4) by (simp add: of_int_le_numeral_power_cancel_iff)
  show ?thesis
    using assms(1,3) k l by (simp add: cursor_range_def)
qed

text \<open>
  C5, as the code has it. \<^verbatim>\<open>GET /approved-classes-pagination\<close>: the page size is the
  \<^verbatim>\<open>limit\<close> parameter, 6 when the parameter is absent (or reads as \<^verbatim>\<open>NaN\<close> or 0);
  the page index is the \<^verbatim>\<open>page\<close> parameter. For a \<^verbatim>\<open>page\<close> that reads as an index
  \<open>p \<ge> 0\<close> and a page size \<open>l > 0\<close>, with \<open>l\<close>, \<open>p * l\<close> and the number of approved
  classes within \<open>2^53\<close>, both store calls succeeding: the total is the number of classes
  with status \<^verbatim>\<open>approved\<close>, the filter of the page query too; \<^verbatim>\<open>totalPages\<close> is the
  ceiling of the total divided by \<open>l\<close>; the data are the approved classes after the first
  \<open>p * l\<close>, \<open>l\<close> of them at most, none when \<open>p * l\<close> reaches the total. With a total of
  13 and a size of 6 there are 3 pages, the page of index 2 has one record and a page of
  index 3 or more has none, the total being what it is for every page.
\<close>

theorem C5_pagination:
  assumes page: "parseInt (query_page req) = Num (of_int p)" and p0: "0 \<le> p"
      and size: "or_6 (parseInt (query_limit req)) = Num (of_int l)" and l0: "0 < l"
      and l53: "l \<le> 2 ^ 53" and pl53: "p * l \<le> 2 ^ 53"
      and ok1: "store_error e (length (trace w)) = None"
      and ok2: "store_error e (Suc (length (trace w))) = None"
      and approved: "approved = filter (field_eq ''status'' (Some (JStr ''approved''))) (classes w)"
      and n53: "int (length approved) < 2 ^ 53"
      and data: "data = take (nat l) (drop (nat (p * l)) approved)"
  shows "approved_classes_pagination e req w =
           (Response 200
              (BPage (Num (of_nat (length approved))) (Num (of_int p))
                 (Num (of_int \<lceil>(of_nat (length approved) :: rat) / of_int l\<rceil>)) data),
            w\<lparr>trace := trace w @ [EvStore Classes ''countDocuments'', EvStore Classes ''find'']\<rparr>)
         \<and> (query_limit req = None \<longrightarrow> l = 6)
         \<and> length data \<le> nat l
         \<and> (int (length approved) \<le> p * l \<longrightarrow> data = [])
         \<and> (length approved = 13 \<and> l = 6 \<longrightarrow>
               \<lceil>(of_nat (length approved) :: rat) / of_int l\<rceil> = 3
               \<and> (p = 2 \<longrightarrow> length data = 1)
               \<and> (3 \<le> p \<longrightarrow> data = []))"
proof -
  let ?n = "length approved"
  have pl0: "0 \<le> p * l" using p0 l0 by simp
  then have skip: "js_mul (Num (of_int p)) (Num (of_int l)) = Num (of_int (p * l))"
    using pl53 by (intro js_mul_int) simp
  have cur: "cursor_range e (Num (of_int (p * l))) (Num (of_int l)) = Inr (nat (p * l), Some (nat l))"
    using pl0 pl53 l0 l53 by (rule cursor_range_page)
  have "fl (of_int (int ?n)) = Num (of_int (int ?n))"
    using n53 by (intro fl_of_int) simp
  then have total: "fl (of_nat ?n) = Num (of_nat ?n)" by simp
  have "js_ceil (fl (of_int (int ?n) / of_int l))
          = Num (of_int \<lceil>(of_int (int ?n) :: rat) / of_int l\<rceil>)"
    using n53 l0 l53 by (intro ceil_fl_div) simp_all
  then have pages: "js_ceil (js_div (Num (of_nat ?n)) (Num (of_int l)))
          = Num (of_int \<lceil>(of_nat ?n :: rat) / of_int l\<rceil>)"
    using l0 by (simp add: js_div_def)
  have run: "approved_classes_pagination e req w =
           (Response 200
              (BPage (Num (of_nat ?n)) (Num (of_int p))
                 (Num (of_int \<lceil>(of_nat ?n :: rat) / of_int l\<rceil>)) data),
            w\<lparr>trace := trace w @ [EvStore Classes ''countDocuments'', EvStore Classes ''find'']\<rparr>)"
    unfolding approved_classes_pagination_def page size Let_def skip
    using ok1 ok2 total pages cur
    by (simp add: countDocuments_def find_skip_limit_def store_call_def get_coll_def
          approved[symmetric] data)
  have dflt: "query_limit req = None \<longrightarrow> l = 6"
    using size or_6_absent by auto
  have len: "length data \<le> nat l" by (simp add: data)
  have out: "int (length approved) \<le> p * l \<longrightarrow> data = []"
    by (simp add: data nat_le_iff)
  have ex: "length approved = 13 \<and> l = 6 \<longrightarrow>
               \<lceil>(of_nat (length approved) :: rat) / of_int l\<rceil> = 3
               \<and> (p = 2 \<longrightarrow> length data = 1)
               \<and> (3 \<le> p \<longrightarrow> data = [])"
  proof -
    have "\<lceil>(13::rat) / 6\<rceil> = 3" by (simp add: ceiling_eq_iff)
    then show ?thesis using p0 by (auto simp: data nat_le_iff)
  qed
  from run dflt len out ex show ?thesis by (intro conjI)
qed

theorem C5_pagination_witness:
  "parseInt (query_page (request0\<lparr>query_page := Some ''2''\<rparr>)) = Num 2
   \<and> or_6 (parseInt (query_limit (request0\<lparr>query_page := Some ''2''\<rparr>))) = Num 6
   \<and> store_error env0 (length (trace (world0\<lparr>classes := fourteen_classes\<rparr>))) = None
   \<and> store_error env0 (Suc (length (trace (world0\<lparr>classes := fourteen_classes\<rparr>)))) = None
   \<and> length (map (class_n ''approved'') [1..<14]) = 13
   \<and> approved_classes_pagination env0 (request0\<lparr>query_page := Some ''2''\<rparr>)
        (world0\<lparr>classes := fourteen_classes\<rparr>)
      = (Response 200 (BPage (Num 13) (Num 2) (Num 3) [class_n ''approved'' 13]),
         world0\<lparr>classes := fourteen_classes,
                trace := [EvStore Classes ''countDocuments'', EvStore Classes ''find'']\<rparr>)"
proof -
  let ?req = "request0\<lparr>query_page := Some ''2''\<rparr>"
  let ?w = "world0\<lparr>classes := fourteen_classes\<rparr>"
  let ?approved = "map (class_n ''approved'') [1..<14]"
  have p: "parseInt (query_page ?req) = Num 2" by code_simp
  then have h1: "parseInt (query_page ?req) = Num (of_int 2)" by simp
  have h2: "(0::int) \<le> 2" by simp
  have s: "or_6 (parseInt (query_limit ?req)) = Num 6" by code_simp
  then have h3: "or_6 (parseInt (query_limit ?req)) = Num (of_int 6)" by simp
  have h4: "(0::int) < 6" by simp
  have h5: "(6::int) \<le> 2 ^ 53" by simp
  have h6: "(2::int) * 6 \<le> 2 ^ 53" by simp
  have h7: "store_error env0 (length (trace ?w)) = None" by (simp add: env0_def)
  have h8: "store_error env0 (Suc (length (trace ?w))) = None" by (simp add: env0_def)
  have h9: "?approved = filter (field_eq ''status'' (Some (JStr ''approved''))) (classes ?w)"
    by code_simp
  have len: "length ?approved = 13" by simp
  have h10: "int (length ?approved) < 2 ^ 53" unfolding len by simp
  have h11: "[class_n ''approved'' 13] = take (nat 6) (drop (nat (2 * 6)) ?approved)"
    by code_simp
  have w: "?w\<lparr>trace := trace ?w @ [EvStore Classes ''countDocuments'', EvStore Classes ''find'']\<rparr>
           = world0\<lparr>classes := fourteen_classes,
                trace := [EvStore Classes ''countDocuments'', EvStore Classes ''find'']\<rparr>"
    by (simp add: world0_def)
  have c: "\<lceil>(13::rat) / 6\<rceil> = 3" by (simp add: ceiling_eq_iff)
  from C5_pagination[OF h1 h2 h3 h4 h5 h6 h7 h8 h9 h10 h11, THEN conjunct1]
  have "approved_classes_pagination env0 ?req ?w
      = (Response 200 (BPage (Num 13) (Num 2) (Num 3) [class_n ''approved'' 13]),
         world0\<lparr>classes := fourteen_classes,
                trace := [EvStore Classes ''countDocuments'', EvStore Classes ''find'']\<rparr>)"
    unfolding len w by (simp add: c)
  with p s h7 h8 len show ?thesis by (intro conjI)
qed

text \<open>
  The page index has no default: a request without \<^verbatim>\<open>page\<close> has a \<^verbatim>\<open>NaN\<close> index and a
  \<^verbatim>\<open>NaN\<close> skip. Where the store reads that skip as 0, the answer is a page whose
  \<^verbatim>\<open>pageNo\<close> is \<^verbatim>\<open>NaN\<close>; where the store refuses it, the answer is 500 with the
  store's error.
\<close>

theorem C5_page_index_has_no_default:
  "parseInt (query_page request0) = NaN
   \<and> fst (approved_classes_pagination (env0\<lparr>cursor_outside := (\<lambda>k l. Inr (0, Some 6))\<rparr>) request0
          (world0\<lparr>classes := fourteen_classes\<rparr>))
     = Response 200 (BPage (Num 13) NaN (Num 3) (map (class_n ''approved'') [1..<7]))
   \<and> fst (approved_classes_pagination env0 request0 (world0\<lparr>classes := fourteen_classes\<rparr>))
     = Response 500 (BError ''Server Error'' (StoreError ''skip and limit must be integers''))"
  by code_simp

text \<open>
  Outside a page index \<open>p \<ge> 0\<close> and a page size \<open>l > 0\<close>: a negative index with a
  positive size is a negative skip, which the store refuses; with a negative size
  \<^verbatim>\<open>totalPages\<close> is negative, whatever the store returns for the negative limit (here:
  as many documents as its absolute value).
\<close>

lemma pagination_negative_page_or_size:
  "fst (approved_classes_pagination env0 (request0\<lparr>query_page := Some ''-1''\<rparr>)
          (world0\<lparr>classes := fourteen_classes\<rparr>))
     = Response 500 (BError ''Server Error'' (StoreError ''skip value must be >= 0''))
   \<and> fst (approved_classes_pagination (env0\<lparr>cursor_outside := (\<lambda>k l. Inr (0, Some 6))\<rparr>)
            (request0\<lparr>query_page := Some ''0'', query_limit := Some ''-6''\<rparr>)
            (world0\<lparr>classes := fourteen_classes\<rparr>))
     = Response 200 (BPage (Num 13) (Num 0) (Num (- 2)) (map (class_n ''approved'') [1..<7]))"
  by code_simp

text \<open>
  What \<^verbatim>\<open>parseInt\<close> reads: white space before the number is skipped, a no-break space
  (U+00A0, the bytes C2 A0) included, so that \<^verbatim>\<open>limit=%C2%A03\<close> is a page size of 3; the
  number is the nearest double, so that \<^verbatim>\<open>page=9007199254740993\<close> is the index \<open>2^53\<close>;
  a prefix \<^verbatim>\<open>0x\<close> is base 16, and what follows the digits is ignored.
\<close>

lemma parseInt_reads:
  "or_6 (parseInt (Some [CHR 0xC2, CHR 0xA0, CHR ''3''])) = Num 3
   \<and> parseInt (Some ''9007199254740993'') = Num (2 ^ 53)
   \<and> parseInt (Some '' -0x1Fg'') = Num (- 31)
   \<and> parseInt (Some ''12.7abc'') = Num 12
   \<and> parseInt (Some ''abc'') = NaN
   \<and> or_6 (parseInt (Some ''0'')) = Num 6"
  by code_simp

text \<open>
  The listings of classes: the paginated public listing and the public listing of the
  earlier snapshot return approved classes only, and the admin listing returns every
  stored class.
\<close>

lemma public_paginated_listing_only_approved:
  assumes "approved_classes_pagination e req w = (Response 200 (BPage t p n ds), w1)"
  shows "\<forall>d \<in> set ds. map_of d ''status'' = Some (JStr ''approved'')"
proof -
  have sub: "set ds \<subseteq> set (filter (field_eq ''status'' (Some (JStr ''approved''))) (classes w))"
    using assms
    unfolding approved_classes_pagination_def countDocuments_def find_skip_limit_def store_call_def
    by (auto simp: Let_def get_coll_def split: option.splits if_splits sum.splits prod.splits
             dest!: in_set_takeD in_set_dropD)
  then show ?thesis by (auto simp: field_eq_def bson_def)
qed

lemma public_listing_only_approved:
  assumes "approved_classes e req w = (Response 200 (BDocs ds), w1)"
  shows "\<forall>d \<in> set ds. map_of d ''status'' = Some (JStr ''approved'')"
  using assms
  unfolding approved_classes_def find_toArray_def store_call_def
  by (auto simp: Let_def get_coll_def field_eq_def bson_def split: option.splits)

lemma admin_listing_all:
  assumes "store_error e (length (trace w)) = None"
  shows "admin_add_class e req w =
           (Response 200 (BDocs (classes w)), w\<lparr>trace := trace w @ [EvStore Classes ''find'']\<rparr>)"
  using assms
  by (simp add: admin_add_class_def find_toArray_def store_call_def get_coll_def)

text \<open>
  C6. \<^verbatim>\<open>GET /top-enrolled-classes\<close>, public as well, filters on \<^verbatim>\<open>enrolled\<close> alone: a
  class that is pending and has enrolments is listed.
\<close>

theorem C6_top_enrolled_lists_pending_class:
  "top_enrolled_classes env0 request0 (world0\<lparr>classes := [pending_enrolled_class]\<rparr>)
     = (Response 200 (BDocs [pending_enrolled_class]),
        world0\<lparr>classes := [pending_enrolled_class], trace := [EvStore Classes ''find'']\<rparr>)
   \<and> map_of pending_enrolled_class ''status'' = Some (JStr ''pending'')"
  by code_simp

text \<open>
  \<^verbatim>\<open>POST /create-payment-intent\<close>, with an id that \<^verbatim>\<open>ObjectId\<close> accepts and a lookup
  that succeeds: without a matching class the answer is 404 and the provider is not
  called; with one, the provider is asked for the price times 100, its error is answered
  with 500 and its intent with the client secret alone.
\<close>

lemma create_payment_intent_found:
  assumes "newObjectId e (classes w) (map_of (body req) ''courseId'') = Some oid"
      and "store_error e (length (trace w)) = None"
      and "List.find (field_eq ''_id'' (Some oid)) (classes w) = Some classData"
      and "amount = js_mul (toNumber e (map_of classData ''price'')) (Num 100)"
      and "w2 = w\<lparr>trace := trace w @ [EvStore Classes ''findOne'', EvPaymentIntent amount]\<rparr>"
  shows "create_payment_intent e req w =
           (case createPaymentIntent e amount of
              Inl m \<Rightarrow> (Response 500 (BDoc [(''error'', JStr m)]), w2)
            | Inr paymentIntent \<Rightarrow>
                (Response 200
                   (BDoc (case map_of paymentIntent ''client_secret'' of
                            None \<Rightarrow> []
                          | Some secret \<Rightarrow> [(''clientSecret'', secret)])), w2))"
  using assms
  by (simp add: create_payment_intent_def findOne_def store_call_def get_coll_def Let_def
           split: sum.splits)

lemma create_payment_intent_not_found:
  assumes "newObjectId e (classes w) (map_of (body req) ''courseId'') = Some oid"
      and "store_error e (length (trace w)) = None"
      and "List.find (field_eq ''_id'' (Some oid)) (classes w) = None"
  shows "create_payment_intent e req w =
           (Response 404 (BDoc [(''message'', JStr ''Not found any classData by this class ID'')]),
            w\<lparr>trace := trace w @ [EvStore Classes ''findOne'']\<rparr>)"
  using assms
  by (simp add: create_payment_intent_def findOne_def store_call_def get_coll_def Let_def)

text \<open>
  C7. The amount is the product as it is, with no rounding: for a class whose price is
  0.125 the provider is asked for 12.5, and this provider, which takes whole amounts,
  refuses, so the answer is 500.
\<close>

theorem C7_fractional_amount_sent:
  "create_payment_intent env0
       (request0\<lparr>body := [(''courseId'', JStr ''0123456789abcdef01234567'')]\<rparr>)
       (world0\<lparr>classes := [eighth_price_class]\<rparr>)
     = (Response 500 (BDoc [(''error'', JStr ''Invalid integer'')]),
        world0\<lparr>classes := [eighth_price_class],
               trace := [EvStore Classes ''findOne'', EvPaymentIntent (Num (25 / 2))]\<rparr>)"
  by code_simp

text \<open>
  A price with two decimals fares no better: 19.99 is stored as the double nearest to
  it, and that double times 100 is the double below 1999, not 1999.
\<close>

lemma decimal_price_amount:
  "create_payment_intent env0
       (request0\<lparr>body := [(''courseId'', JStr ''0123456789abcdef01234567'')]\<rparr>)
       (world0\<lparr>classes := [decimal_price_class]\<rparr>)
     = (Response 500 (BDoc [(''error'', JStr ''Invalid integer'')]),
        world0\<lparr>classes := [decimal_price_class],
               trace := [EvStore Classes ''findOne'',
                         EvPaymentIntent (Num (8791694975696895 / 4398046511104))]\<rparr>)
   \<and> (8791694975696895 / 4398046511104 :: rat) < 1999
   \<and> 1999 - 1 / 10 ^ 12 < (8791694975696895 / 4398046511104 :: rat)"
  by code_simp

lemma set_fields_single: "set_fields [(k, v)] = AList.update k v"
  by (rule ext) simp

text \<open>
  C8. \<^verbatim>\<open>PATCH /teacher-request-status/:id\<close> makes two store updates one after the other,
  the status of the teacher request with the given id and then the role of the first user
  with the body's email, with nothing that undoes the first. When the first succeeds and
  the second fails, the answer is 500 with the message that the update failed, the
  teacher request keeps its new status and the users are as before; when both succeed
  the answer is 200.
\<close>

theorem C8_teacher_request_status_partial_failure:
  assumes oid: "mkObjectId e (Some (JStr (param_id req))) = Some oid"
      and ok1: "store_error e (length (trace w)) = None"
      and w1: "w1 = w\<lparr>teachOn := update_first (field_eq ''_id'' (Some oid))
                                   (AList.update ''status'' (bson (map_of (body req) ''status'')))
                                   (teachOn w),
                       trace := trace w @ [EvStore TeachOn ''updateOne'', EvStore Users ''updateOne'']\<rparr>"
  shows "teacher_request_status e req w =
           (case store_error e (Suc (length (trace w))) of
              Some m \<Rightarrow> (Response 500 (BDoc [(''message'', JStr ''Failed to update'')]), w1)
            | None \<Rightarrow>
                (Response 200 (BDoc [(''message'', JStr ''updated'')]),
                 w1\<lparr>users := update_first (field_eq ''email'' (map_of (body req) ''email''))
                                 (AList.update ''role'' (bson (map_of (body req) ''role'')))
                                 (users w)\<rparr>))"
  unfolding teacher_request_status_def
  using oid ok1 w1
  by (simp add: Let_def updateOne_def store_call_def get_coll_def set_coll_def failed_to_update_def
        set_fields_single split: option.splits)

theorem C8_teacher_request_status_partial_failure_witness:
  "mkObjectId failing_second (Some (JStr (param_id status_request)))
     = Some (JOid ''0123456789abcdef01234567'')
   \<and> store_error failing_second (length (trace status_world)) = None
   \<and> store_error failing_second (Suc (length (trace status_world))) = Some ''connection closed''
   \<and> teacher_request_status failing_second status_request status_world
       = (Response 500 (BDoc [(''message'', JStr ''Failed to update'')]),
          world0\<lparr>users := [[(''email'', JStr ''a@x.com''), (''role'', JStr ''student'')]],
                 teachOn := [[(''_id'', JOid ''0123456789abcdef01234567''),
                              (''email'', JStr ''a@x.com''), (''status'', JStr ''approved'')]],
                 trace := [EvStore TeachOn ''updateOne'', EvStore Users ''updateOne'']\<rparr>)"
proof -
  let ?w1 = "world0\<lparr>users := [[(''email'', JStr ''a@x.com''), (''role'', JStr ''student'')]],
                 teachOn := [[(''_id'', JOid ''0123456789abcdef01234567''),
                              (''email'', JStr ''a@x.com''), (''status'', JStr ''approved'')]],
                 trace := [EvStore TeachOn ''updateOne'', EvStore Users ''updateOne'']\<rparr>"
  have h1: "mkObjectId failing_second (Some (JStr (param_id status_request)))
     = Some (JOid ''0123456789abcdef01234567'')" by code_simp
  have h2: "store_error failing_second (length (trace status_world)) = None" by code_simp
  have h3: "?w1 = status_world\<lparr>teachOn := update_first (field_eq ''_id'' (Some (JOid ''0123456789abcdef01234567'')))
                                   (AList.update ''status'' (bson (map_of (body status_request) ''status'')))
                                   (teachOn status_world),
                       trace := trace status_world @ [EvStore TeachOn ''updateOne'', EvStore Users ''updateOne'']\<rparr>"
    by code_simp
  have h4: "store_error failing_second (Suc (length (trace status_world))) = Some ''connection closed''"
    by code_simp
  from C8_teacher_request_status_partial_failure[OF h1 h2 h3] h4
  have "teacher_request_status failing_second status_request status_world
       = (Response 500 (BDoc [(''message'', JStr ''Failed to update'')]), ?w1)"
    by simp
  with h1 h2 h4 show ?thesis by (intro conjI)
qed

text \<open>
  C9. \<^verbatim>\<open>GET /users/search\<close> behind the gates (the request carries the caller's decoded
  token), the store call succeeding. Without an \<^verbatim>\<open>email\<close> parameter, or with an empty
  one, the answer is the stored users that the filter \<^verbatim>\<open>{email: {$ne: caller}}\<close>
  keeps: when the caller's email is a string, no returned record has that email and every
  stored record with another email is returned. With a non-empty parameter that
  \<^verbatim>\<open>RegExp\<close> accepts with the flag \<^verbatim>\<open>i\<close>, the answer is the first ten stored users
  whose email the pattern matches; the caller's email plays no part, and with ten matches
  or fewer every matching record is returned, the caller's own too. The match ignores the
  case of letters: a parameter of plain characters matches a stored ASCII email exactly
  when the email contains it, both read in lower case.
\<close>

theorem C9_users_search:
  assumes ok: "store_error e (length (trace w)) = None"
      and caller: "decoded req = Some d"
      and w1: "w1 = w\<lparr>trace := trace w @ [EvStore Users ''find'']\<rparr>"
  shows "(query_email req = None \<or> query_email req = Some [] \<longrightarrow>
            users_search e req w =
              (Response 200
                 (BDocs (filter (field_ne ''email'' (map_of d ''email'')) (users w))), w1)
            \<and> (\<forall>em. map_of d ''email'' = Some (JStr em) \<longrightarrow>
                  (\<forall>u \<in> set (filter (field_ne ''email'' (map_of d ''email'')) (users w)).
                      map_of u ''email'' \<noteq> Some (JStr em))
                  \<and> (\<forall>u \<in> set (users w). map_of u ''email'' \<noteq> Some (JStr em) \<longrightarrow>
                        u \<in> set (filter (field_ne ''email'' (map_of d ''email'')) (users w)))))
         \<and> (\<forall>pat regex. query_email req = Some pat \<and> pat \<noteq> []
                          \<and> newRegExp e pat ''i'' = Some regex \<longrightarrow>
               users_search e req w =
                 (Response 200 (BDocs (take 10 (filter (field_regex ''email'' regex) (users w)))), w1)
               \<and> (length (filter (field_regex ''email'' regex) (users w)) \<le> 10 \<longrightarrow>
                    (\<forall>u \<in> set (users w). field_regex ''email'' regex u \<longrightarrow>
                        u \<in> set (take 10 (filter (field_regex ''email'' regex) (users w)))))
               \<and> (list_all literal_char pat \<longrightarrow>
                    (\<forall>u em. map_of u ''email'' = Some (JStr em) \<and> ascii em \<longrightarrow>
                        field_regex ''email'' regex u = contains (lower pat) (lower em))))"
proof -
  have none: "users_search e req w =
              (Response 200
                 (BDocs (filter (field_ne ''email'' (map_of d ''email'')) (users w))), w1)"
    if "query_email req = None \<or> query_email req = Some []"
  proof -
    from that have "truthy_str (query_email req) = None"
      by (auto simp: truthy_str_def)
    then show ?thesis
      unfolding users_search_def using ok caller w1
      by (simp add: Let_def find_toArray_def store_call_def get_coll_def)
  qed
  have excl: "\<forall>u \<in> set (filter (field_ne ''email'' (map_of d ''email'')) (users w)).
                 map_of u ''email'' \<noteq> Some (JStr em)"
    if "map_of d ''email'' = Some (JStr em)" for em
    using that by (auto simp: field_ne_def field_eq_def bson_def)
  have incl: "\<forall>u \<in> set (users w). map_of u ''email'' \<noteq> Some (JStr em) \<longrightarrow>
                 u \<in> set (filter (field_ne ''email'' (map_of d ''email'')) (users w))"
    if "map_of d ''email'' = Some (JStr em)" for em
    using that by (auto simp: field_ne_def field_eq_def bson_def)
  have some: "users_search e req w =
                 (Response 200 (BDocs (take 10 (filter (field_regex ''email'' regex) (users w)))), w1)"
    if "query_email req = Some pat" "pat \<noteq> []" "newRegExp e pat ''i'' = Some regex" for pat regex
  proof -
    from that have "truthy_str (query_email req) = Some pat"
      by (auto simp: truthy_str_def)
    then show ?thesis
      unfolding users_search_def using ok w1 that(3)
      by (simp add: Let_def find_limit_def store_call_def get_coll_def)
  qed
  have all: "length (filter (field_regex ''email'' regex) (users w)) \<le> 10 \<longrightarrow>
                    (\<forall>u \<in> set (users w). field_regex ''email'' regex u \<longrightarrow>
                        u \<in> set (take 10 (filter (field_regex ''email'' regex) (users w))))" for regex
    by simp
  have caseless: "\<forall>u em. map_of u ''email'' = Some (JStr em) \<and> ascii em \<longrightarrow>
                    field_regex ''email'' regex u = contains (lower pat) (lower em)"
    if "newRegExp e pat ''i'' = Some regex" "list_all literal_char pat" for pat regex
  proof -
    from that have "regex = (\<lambda>s. if ascii s then contains (lower pat) (lower s)
                                   else caseless_outside e pat s)"
      by (simp add: newRegExp_def)
    then show ?thesis by (simp add: field_regex_def)
  qed
  show ?thesis
  proof (intro conjI impI allI)
    assume "query_email req = None \<or> query_email req = Some []"
    then show "users_search e req w =
              (Response 200
                 (BDocs (filter (field_ne ''email'' (map_of d ''email'')) (users w))), w1)"
      by (rule none)
  next
    fix em assume "map_of d ''email'' = Some (JStr em)"
    then show "\<forall>u \<in> set (filter (field_ne ''email'' (map_of d ''email'')) (users w)).
                 map_of u ''email'' \<noteq> Some (JStr em)"
      by (rule excl)
  next
    fix em assume "map_of d ''email'' = Some (JStr em)"
    then show "\<forall>u \<in> set (users w). map_of u ''email'' \<noteq> Some (JStr em) \<longrightarrow>
                 u \<in> set (filter (field_ne ''email'' (map_of d ''email'')) (users w))"
      by (rule incl)
  next
    fix pat regex
    assume "query_email req = Some pat \<and> pat \<noteq> [] \<and> newRegExp e pat ''i'' = Some regex"
    then show "users_search e req w =
                 (Response 200 (BDocs (take 10 (filter (field_regex ''email'' regex) (users w)))), w1)"
      using some by simp
  next
    fix pat regex
    assume "length (filter (field_regex ''email'' regex) (users w)) \<le> 10"
    then show "\<forall>u \<in> set (users w). field_regex ''email'' regex u \<longrightarrow>
                        u \<in> set (take 10 (filter (field_regex ''email'' regex) (users w)))"
      using all by simp
  next
    fix pat regex u em
    assume "query_email req = Some pat \<and> pat \<noteq> [] \<and> newRegExp e pat ''i'' = Some regex"
      and "list_all literal_char pat"
      and "map_of u ''email'' = Some (JStr em) \<and> ascii em"
    then show "field_regex ''email'' regex u = contains (lower pat) (lower em)"
      using caseless by simp
  qed
qed

theorem C9_users_search_witness:
  "store_error env0 (length (trace (world0\<lparr>users := [student_user, admin_user]\<rparr>))) = None
   \<and> decoded (request0\<lparr>decoded := Some [(''email'', JStr ''admin@x.com'')]\<rparr>)
       = Some [(''email'', JStr ''admin@x.com'')]
   \<and> query_email (request0\<lparr>decoded := Some [(''email'', JStr ''admin@x.com'')]\<rparr>) = None
   \<and> users_search env0 (request0\<lparr>decoded := Some [(''email'', JStr ''admin@x.com'')]\<rparr>)
        (world0\<lparr>users := [student_user, admin_user]\<rparr>)
      = (Response 200 (BDocs [student_user]),
         world0\<lparr>users := [student_user, admin_user], trace := [EvStore Users ''find'']\<rparr>)
   \<and> list_all literal_char ''ADMIN''
   \<and> map_of admin_user ''email'' = Some (JStr ''admin@x.com'')
   \<and> ascii ''admin@x.com''
   \<and> contains (lower ''ADMIN'') (lower ''admin@x.com'')
   \<and> (\<exists>regex. newRegExp env0 ''ADMIN'' ''i'' = Some regex
         \<and> field_regex ''email'' regex admin_user)
   \<and> users_search env0
        (request0\<lparr>decoded := Some [(''email'', JStr ''admin@x.com'')], query_email := Some ''ADMIN''\<rparr>)
        (world0\<lparr>users := [student_user, admin_user]\<rparr>)
      = (Response 200 (BDocs [admin_user]),
         world0\<lparr>users := [student_user, admin_user], trace := [EvStore Users ''find'']\<rparr>)"
proof -
  let ?w = "world0\<lparr>users := [student_user, admin_user]\<rparr>"
  let ?w1 = "world0\<lparr>users := [student_user, admin_user], trace := [EvStore Users ''find'']\<rparr>"
  let ?d = "[(''email'', JStr ''admin@x.com'')]"
  let ?req = "request0\<lparr>decoded := Some ?d\<rparr>"
  let ?req2 = "request0\<lparr>decoded := Some ?d, query_email := Some ''ADMIN''\<rparr>"
  let ?rx = "\<lambda>s. if ascii s then contains (lower ''ADMIN'') (lower s)
                  else caseless_outside env0 ''ADMIN'' s"
  have h1: "store_error env0 (length (trace ?w)) = None" by (simp add: env0_def)
  have h2: "decoded ?req = Some ?d" by simp
  have h2': "decoded ?req2 = Some ?d" by simp
  have h3: "?w1 = ?w\<lparr>trace := trace ?w @ [EvStore Users ''find'']\<rparr>" by (simp add: world0_def)
  have q: "query_email ?req = None" by (simp add: request0_def)
  have lit: "list_all literal_char ''ADMIN''" by code_simp
  have em: "map_of admin_user ''email'' = Some (JStr ''admin@x.com'')" by code_simp
  have asc: "ascii ''admin@x.com''" by code_simp
  have con: "contains (lower ''ADMIN'') (lower ''admin@x.com'')" by code_simp
  have rx: "newRegExp env0 ''ADMIN'' ''i'' = Some ?rx"
    using lit by (simp add: newRegExp_def)
  have q2: "query_email ?req2 = Some ''ADMIN'' \<and> ''ADMIN'' \<noteq> [] \<and> newRegExp env0 ''ADMIN'' ''i'' = Some ?rx"
    using rx by simp
  have f1: "filter (field_ne ''email'' (map_of ?d ''email'')) (users ?w) = [student_user]"
    by code_simp
  have f2: "take 10 (filter (field_regex ''email'' ?rx) (users ?w)) = [admin_user]"
    by code_simp
  note first = C9_users_search[OF h1 h2 h3, THEN conjunct1, rule_format, OF disjI1[OF q],
                 THEN conjunct1]
  note second = C9_users_search[OF h1 h2' h3, THEN conjunct2, rule_format, OF q2]
  from first f1
  have r1: "users_search env0 ?req ?w = (Response 200 (BDocs [student_user]), ?w1)"
    by simp
  from second[THEN conjunct1] f2
  have r2: "users_search env0 ?req2 ?w = (Response 200 (BDocs [admin_user]), ?w1)"
    by simp
  from second[THEN conjunct2, THEN conjunct2, rule_format, OF lit conjI[OF em asc]] con
  have m: "field_regex ''email'' ?rx admin_user" by simp
  have ex: "\<exists>regex. newRegExp env0 ''ADMIN'' ''i'' = Some regex
         \<and> field_regex ''email'' regex admin_user"
    using rx m by (intro exI[of _ ?rx] conjI)
  from h1 h2 q r1 lit em asc con ex r2 show ?thesis by (intro conjI)
qed

text \<open>
  C10. \<^verbatim>\<open>POST /teacher-request\<close> for an email that has a stored request, both store
  calls succeeding: the answer is 200 with the message that it exists; the first stored
  request for that email has its \<^verbatim>\<open>status\<close> set to \<^verbatim>\<open>pending\<close> and its
  \<^verbatim>\<open>last_request_at\<close> set to the clock reading taken for the update, every other field of
  it reads as before, every other record and collection is as before, and the store calls
  are one lookup and one update: nothing is inserted.
\<close>

theorem C10_teacher_request_existing:
  assumes stored: "teachOn w = pre @ d # post"
      and first: "\<forall>x \<in> set pre. \<not> field_eq ''email'' (map_of (body req) ''email'') x"
      and match: "field_eq ''email'' (map_of (body req) ''email'') d"
      and ok1: "store_error e (length (trace w)) = None"
      and ok2: "store_error e (Suc (length (trace w))) = None"
  shows "\<exists>d' w'.
           teacher_request e req w =
             (Response 200 (BDoc [(''message'', JStr ''Already exists''),
                                  (''inserted'', JBool False)]), w')
         \<and> teachOn w' = pre @ d' # post
         \<and> users w' = users w \<and> classes w' = classes w
         \<and> trace w' = trace w @ [EvStore TeachOn ''findOne'', EvStore TeachOn ''updateOne'']
         \<and> map_of d' ''status'' = Some (JStr ''pending'')
         \<and> map_of d' ''last_request_at'' = Some (JStr (now e (ticks w + 2)))
         \<and> (\<forall>k. k \<noteq> ''status'' \<and> k \<noteq> ''last_request_at'' \<longrightarrow> map_of d' k = map_of d k)"
proof -
  let ?data = "set_fields [(''status'', JStr ''pending''), (''create_at'', JStr (now e (ticks w))),
                 (''last_request_at'', JStr (now e (Suc (ticks w))))] (body req)"
  let ?p = "field_eq ''email'' (map_of (body req) ''email'')"
  let ?sets = "[(''status'', JStr ''pending''), (''last_request_at'', JStr (now e (ticks w + 2)))]"
  have email: "map_of ?data ''email'' = map_of (body req) ''email''"
    by (simp add: update_conv')
  have found: "List.find ?p (teachOn w) = Some d"
    using stored first match find_first_match by simp
  have upd: "update_first ?p (set_fields ?sets) (teachOn w) = pre @ set_fields ?sets d # post"
    using stored first match update_first_match by simp
  have run: "teacher_request e req w =
          (Response 200 (BDoc [(''message'', JStr ''Already exists''), (''inserted'', JBool False)]),
           w\<lparr>teachOn := pre @ set_fields ?sets d # post,
             trace := trace w @ [EvStore TeachOn ''findOne'', EvStore TeachOn ''updateOne''],
             ticks := ticks w + 3\<rparr>)"
    unfolding teacher_request_def
    using found upd ok1 ok2 email
    by (simp add: isoNow_def findOne_def updateOne_def store_call_def get_coll_def
          set_coll_def Let_def)
  define d' where "d' = set_fields ?sets d"
  define w' where "w' = w\<lparr>teachOn := pre @ d' # post,
             trace := trace w @ [EvStore TeachOn ''findOne'', EvStore TeachOn ''updateOne''],
             ticks := ticks w + 3\<rparr>"
  have fields: "map_of d' k =
                  (if k = ''last_request_at'' then Some (JStr (now e (ticks w + 2)))
                   else if k = ''status'' then Some (JStr ''pending'') else map_of d k)" for k
    by (simp add: d'_def update_conv')
  have "teacher_request e req w =
          (Response 200 (BDoc [(''message'', JStr ''Already exists''), (''inserted'', JBool False)]), w')"
    using run by (simp add: w'_def d'_def)
  moreover have "teachOn w' = pre @ d' # post" "users w' = users w" "classes w' = classes w"
    "trace w' = trace w @ [EvStore TeachOn ''findOne'', EvStore TeachOn ''updateOne'']"
    by (simp_all add: w'_def)
  moreover have "map_of d' ''status'' = Some (JStr ''pending'')"
    "map_of d' ''last_request_at'' = Some (JStr (now e (ticks w + 2)))"
    "\<forall>k. k \<noteq> ''status'' \<and> k \<noteq> ''last_request_at'' \<longrightarrow> map_of d' k = map_of d k"
    by (simp_all add: fields)
  ultimately show ?thesis
    by (intro exI[of _ d'] exI[of _ w']) simp
qed

theorem C10_teacher_request_existing_witness:
  "teachOn (world0\<lparr>teachOn := [teacher_req]\<rparr>) = [] @ teacher_req # []
   \<and> field_eq ''email'' (map_of (body (request0\<lparr>body := [(''email'', JStr ''a@x.com'')]\<rparr>)) ''email'')
        teacher_req
   \<and> store_error env0 (length (trace (world0\<lparr>teachOn := [teacher_req]\<rparr>))) = None
   \<and> store_error env0 (Suc (length (trace (world0\<lparr>teachOn := [teacher_req]\<rparr>)))) = None
   \<and> (\<exists>d' w'.
         teacher_request env0 (request0\<lparr>body := [(''email'', JStr ''a@x.com'')]\<rparr>)
            (world0\<lparr>teachOn := [teacher_req]\<rparr>)
           = (Response 200 (BDoc [(''message'', JStr ''Already exists''),
                                  (''inserted'', JBool False)]), w')
         \<and> teachOn w' = [d']
         \<and> map_of d' ''status'' = Some (JStr ''pending'')
         \<and> map_of d' ''experience'' = map_of teacher_req ''experience'')"
proof -
  let ?w = "world0\<lparr>teachOn := [teacher_req]\<rparr>"
  let ?req = "request0\<lparr>body := [(''email'', JStr ''a@x.com'')]\<rparr>"
  have h1: "teachOn ?w = [] @ teacher_req # []" by simp
  have h2: "\<forall>x \<in> set []. \<not> field_eq ''email'' (map_of (body ?req) ''email'') x" by simp
  have h3: "field_eq ''email'' (map_of (body ?req) ''email'') teacher_req" by code_simp
  have h4: "store_error env0 (length (trace ?w)) = None" by (simp add: env0_def)
  have h5: "store_error env0 (Suc (length (trace ?w))) = None" by (simp add: env0_def)
  from C10_teacher_request_existing[OF h1 h2 h3 h4 h5]
  obtain d' w' where
    "teacher_request env0 ?req ?w
       = (Response 200 (BDoc [(''message'', JStr ''Already exists''),
                              (''inserted'', JBool False)]), w')"
    "teachOn w' = [] @ d' # []" "map_of d' ''status'' = Some (JStr ''pending'')"
    "\<forall>k. k \<noteq> ''status'' \<and> k \<noteq> ''last_request_at'' \<longrightarrow> map_of d' k = map_of teacher_req k"
    by blast
  moreover from this have "map_of d' ''experience'' = map_of teacher_req ''experience''"
    by simp
  ultimately show ?thesis using h1 h3 h4 h5 by (intro conjI exI[of _ d'] exI[of _ w']) simp_all
qed

end
